theory Spec2Isabelle
  imports Main "HOL-Library.AList" "HOL-Library.Sublist"
begin

section \<open>Data model of the SpatialData container\<close>

text \<open>
  Python objects that are mutated in place and may be reachable under several names
  (the spatial elements, and the \<open>set\<close> objects holding the shared element names) live
  in stores indexed by addresses. Tables are kept by value: no property below depends on
  two names referring to one table object.
\<close>

type_synonym addr = nat
type_synonym path = "string list"

text \<open>
  Identifier dtypes. \<open>DStr\<close> is the dtype for which the comparison \<open>dtype == str\<close> of the
  source is true. \<open>DObject\<close> is the pandas \<open>object\<close> dtype, which a column of Python
  strings has, and for which that comparison is false. \<open>DInt\<close> and \<open>DFloat\<close> carry their
  width in bits.
\<close>

datatype dtype = DStr | DInt nat | DFloat nat | DObject

datatype transformation = Identity | Affine "int list" | Sequence "transformation list"

text \<open>
  The Python class of an element decides which dtype \<open>validate_table_in_spatialdata\<close>
  reads: \<open>element.dtype\<close> for a \<open>SpatialImage\<close>, the dtype of the image of \<open>scale0\<close>
  for a \<open>MultiscaleSpatialImage\<close>, \<open>element.index.dtype\<close> for the data frames.
\<close>

datatype payload =
    SpatialImage dtype
  | MultiscaleSpatialImage dtype
  | DaskDataFrame dtype
  | GeoDataFrame dtype

record element =
  payload :: payload
  transformations :: "(string \<times> transformation) list"
  backing_files :: "path list"

text \<open>
  The region of an annotation: one element name, or several (a list or a \<open>pandas.Series\<close>
  of names).
\<close>

datatype region = RegionStr string | RegionList "string list"

record attrs =
  region :: region
  region_key :: string
  instance_key :: string

text \<open>
  An annotation table: the columns of \<open>obs\<close> with their dtypes, the rows (a row gives the
  cell of every column), and \<open>uns['spatialdata_attrs']\<close> when present.
\<close>

record table =
  obs_columns :: "(string \<times> dtype) list"
  obs_rows :: "(string \<Rightarrow> string) list"
  uns_attrs :: "attrs option"

datatype error =
    ElementNamesNotUnique
  | NameCollisionError
  | StructuralValidationError
  | DtypeMismatchError
  | AttributeError
  | KeyError
  | AssertionError
  | UnhashableTypeError
  | UnknownTargetError
  | MissingKeysError
  | RegionKeyError
  | InstanceKeyError
  | SymmetryError
  | UnknownCoordinateSystemError
  | RenameCollisionError
  | NotAZarrStore
  | StoreExistsNoOverwrite
  | WouldOrphanBackingData
  | ElementOverwriteUnsupported
  | OverlapsCurrentStore
  | UnknownElementType
  | ContainsGroupError
  | StoreNotFound
  | ReadError

datatype warning = AnnotatingAbsent string

text \<open>
  One of the five mappings \<open>Images\<close>, \<open>Labels\<close>, \<open>Points\<close>, \<open>Shapes\<close>, \<open>Tables\<close>: the
  reference to the set of names it was constructed with, and its entries in insertion
  order.
\<close>

record 'v elements =
  shared_keys_ref :: addr
  data :: "(string \<times> 'v) list"

record sdata =
  sd_path :: "path option"
  key_sets :: "addr \<Rightarrow> string set"
  next_set :: addr
  shared_keys :: addr
  images :: "addr elements"
  labels :: "addr elements"
  points :: "addr elements"
  shapes :: "addr elements"
  tables :: "table elements"

section \<open>The element registry\<close>

text \<open>
  Modelled from the spec: the class \<open>Elements\<close> and its subclasses
  (\<open>spatialdata/_core/_elements.py\<close>) are not among the sources. Section 4.1: an insert
  fails with a name collision if the name already exists anywhere in the container;
  the mapping has a side-effecting insert that also updates the shared set it was given.
  The error is raised before any mutation.
\<close>

definition elements_setitem ::
  "(addr \<Rightarrow> string set) \<Rightarrow> 'v elements \<Rightarrow> string \<Rightarrow> 'v
    \<Rightarrow> error + ((addr \<Rightarrow> string set) \<times> 'v elements)" where
  "elements_setitem ks r k v =
     (if k \<in> ks (shared_keys_ref r) then Inl NameCollisionError
      else Inr (ks(shared_keys_ref r := insert k (ks (shared_keys_ref r))),
                r\<lparr>data := data r @ [(k, v)]\<rparr>))"

text \<open>\<open>self.images[k] = v\<close> and its four siblings: the state after, and the error if any.\<close>

definition images_setitem :: "string \<Rightarrow> addr \<Rightarrow> sdata \<Rightarrow> error option \<times> sdata" where
  "images_setitem k v sd =
     (case elements_setitem (key_sets sd) (images sd) k v of
        Inl e \<Rightarrow> (Some e, sd)
      | Inr (ks, r) \<Rightarrow> (None, sd\<lparr>key_sets := ks, images := r\<rparr>))"

definition labels_setitem :: "string \<Rightarrow> addr \<Rightarrow> sdata \<Rightarrow> error option \<times> sdata" where
  "labels_setitem k v sd =
     (case elements_setitem (key_sets sd) (labels sd) k v of
        Inl e \<Rightarrow> (Some e, sd)
      | Inr (ks, r) \<Rightarrow> (None, sd\<lparr>key_sets := ks, labels := r\<rparr>))"

definition points_setitem :: "string \<Rightarrow> addr \<Rightarrow> sdata \<Rightarrow> error option \<times> sdata" where
  "points_setitem k v sd =
     (case elements_setitem (key_sets sd) (points sd) k v of
        Inl e \<Rightarrow> (Some e, sd)
      | Inr (ks, r) \<Rightarrow> (None, sd\<lparr>key_sets := ks, points := r\<rparr>))"

definition shapes_setitem :: "string \<Rightarrow> addr \<Rightarrow> sdata \<Rightarrow> error option \<times> sdata" where
  "shapes_setitem k v sd =
     (case elements_setitem (key_sets sd) (shapes sd) k v of
        Inl e \<Rightarrow> (Some e, sd)
      | Inr (ks, r) \<Rightarrow> (None, sd\<lparr>key_sets := ks, shapes := r\<rparr>))"

definition tables_setitem :: "string \<Rightarrow> table \<Rightarrow> sdata \<Rightarrow> error option \<times> sdata" where
  "tables_setitem k v sd =
     (case elements_setitem (key_sets sd) (tables sd) k v of
        Inl e \<Rightarrow> (Some e, sd)
      | Inr (ks, r) \<Rightarrow> (None, sd\<lparr>key_sets := ks, tables := r\<rparr>))"

text \<open>
  A \<open>for k, v in d.items(): target[k] = v\<close> loop: the first error ends it, and what was
  inserted before stays.
\<close>

fun setitems ::
  "(string \<Rightarrow> 'v \<Rightarrow> sdata \<Rightarrow> error option \<times> sdata) \<Rightarrow> (string \<times> 'v) list \<Rightarrow> sdata
    \<Rightarrow> error option \<times> sdata" where
  "setitems f [] sd = (None, sd)"
| "setitems f ((k, v) # kvs) sd =
     (case f k v sd of
        (Some e, sd') \<Rightarrow> (Some e, sd')
      | (None, sd') \<Rightarrow> setitems f kvs sd')"

text \<open>
  The first lines of \<open>SpatialData.__init__\<close>: one new set, given to all five mappings.
\<close>

definition empty_sdata :: sdata where
  "empty_sdata =
     \<lparr>sd_path = None, key_sets = (\<lambda>_. {}), next_set = 1, shared_keys = 0,
      images = \<lparr>shared_keys_ref = 0, data = []\<rparr>,
      labels = \<lparr>shared_keys_ref = 0, data = []\<rparr>,
      points = \<lparr>shared_keys_ref = 0, data = []\<rparr>,
      shapes = \<lparr>shared_keys_ref = 0, data = []\<rparr>,
      tables = \<lparr>shared_keys_ref = 0, data = []\<rparr>\<rparr>"

text \<open>
  The property setters. \<open>self._shared_keys = self._shared_keys - set(self._images.keys())\<close>
  binds the attribute to a new set object; the new mapping is constructed with that new
  object, the other four mappings keep the reference they were constructed with.
\<close>

definition rebind_shared_keys :: "string list \<Rightarrow> sdata \<Rightarrow> sdata" where
  "rebind_shared_keys old_keys sd =
     sd\<lparr>key_sets := (key_sets sd)(next_set sd := key_sets sd (shared_keys sd) - set old_keys),
        shared_keys := next_set sd,
        next_set := Suc (next_set sd)\<rparr>"

definition images_setter :: "(string \<times> addr) list \<Rightarrow> sdata \<Rightarrow> error option \<times> sdata" where
  "images_setter d sd =
     (let sd1 = rebind_shared_keys (map fst (data (images sd))) sd;
          sd2 = sd1\<lparr>images := \<lparr>shared_keys_ref = shared_keys sd1, data = []\<rparr>\<rparr>
      in setitems images_setitem d sd2)"

definition labels_setter :: "(string \<times> addr) list \<Rightarrow> sdata \<Rightarrow> error option \<times> sdata" where
  "labels_setter d sd =
     (let sd1 = rebind_shared_keys (map fst (data (labels sd))) sd;
          sd2 = sd1\<lparr>labels := \<lparr>shared_keys_ref = shared_keys sd1, data = []\<rparr>\<rparr>
      in setitems labels_setitem d sd2)"

definition points_setter :: "(string \<times> addr) list \<Rightarrow> sdata \<Rightarrow> error option \<times> sdata" where
  "points_setter d sd =
     (let sd1 = rebind_shared_keys (map fst (data (points sd))) sd;
          sd2 = sd1\<lparr>points := \<lparr>shared_keys_ref = shared_keys sd1, data = []\<rparr>\<rparr>
      in setitems points_setitem d sd2)"

definition shapes_setter :: "(string \<times> addr) list \<Rightarrow> sdata \<Rightarrow> error option \<times> sdata" where
  "shapes_setter d sd =
     (let sd1 = rebind_shared_keys (map fst (data (shapes sd))) sd;
          sd2 = sd1\<lparr>shapes := \<lparr>shared_keys_ref = shared_keys sd1, data = []\<rparr>\<rparr>
      in setitems shapes_setitem d sd2)"

definition tables_setter :: "(string \<times> table) list \<Rightarrow> sdata \<Rightarrow> error option \<times> sdata" where
  "tables_setter d sd =
     (let sd1 = rebind_shared_keys (map fst (data (tables sd))) sd;
          sd2 = sd1\<lparr>tables := \<lparr>shared_keys_ref = shared_keys sd1, data = []\<rparr>\<rparr>
      in setitems tables_setitem d sd2)"

text \<open>The generators \<open>_gen_elements\<close>, \<open>gen_elements\<close> and \<open>_gen_spatial_element_values\<close>.\<close>

datatype item = ElementItem addr | TableItem table

definition gen_spatial_elements :: "sdata \<Rightarrow> (string \<times> string \<times> addr) list" where
  "gen_spatial_elements sd =
     map (\<lambda>(k, v). (''images'', k, v)) (data (images sd)) @
     map (\<lambda>(k, v). (''labels'', k, v)) (data (labels sd)) @
     map (\<lambda>(k, v). (''points'', k, v)) (data (points sd)) @
     map (\<lambda>(k, v). (''shapes'', k, v)) (data (shapes sd))"

definition gen_elements :: "sdata \<Rightarrow> (string \<times> string \<times> item) list" where
  "gen_elements sd =
     map (\<lambda>(t, k, v). (t, k, ElementItem v)) (gen_spatial_elements sd) @
     map (\<lambda>(k, v). (''tables'', k, TableItem v)) (data (tables sd))"

definition gen_spatial_element_values :: "sdata \<Rightarrow> addr list" where
  "gen_spatial_element_values sd =
     map snd (data (images sd)) @ map snd (data (labels sd)) @
     map snd (data (points sd)) @ map snd (data (shapes sd))"

definition element_names :: "sdata \<Rightarrow> string list" where
  "element_names sd = map (\<lambda>(t, k, v). k) (gen_elements sd)"

text \<open>\<open>_validate_element_names_are_unique\<close>.\<close>

fun names_unique_from :: "string set \<Rightarrow> string list \<Rightarrow> error option" where
  "names_unique_from seen [] = None"
| "names_unique_from seen (n # ns) =
     (if n \<in> seen then Some ElementNamesNotUnique else names_unique_from (insert n seen) ns)"

definition validate_element_names_are_unique :: "sdata \<Rightarrow> error option" where
  "validate_element_names_are_unique sd = names_unique_from {} (element_names sd)"

text \<open>An insertion into one of the five kinds, and a sequence of them from a new container.\<close>

datatype insertion =
    IntoImages string addr
  | IntoLabels string addr
  | IntoPoints string addr
  | IntoShapes string addr
  | IntoTables string table

fun inserted_name :: "insertion \<Rightarrow> string" where
  "inserted_name (IntoImages k v) = k"
| "inserted_name (IntoLabels k v) = k"
| "inserted_name (IntoPoints k v) = k"
| "inserted_name (IntoShapes k v) = k"
| "inserted_name (IntoTables k v) = k"

fun insert_into :: "insertion \<Rightarrow> sdata \<Rightarrow> error option \<times> sdata" where
  "insert_into (IntoImages k v) sd = images_setitem k v sd"
| "insert_into (IntoLabels k v) sd = labels_setitem k v sd"
| "insert_into (IntoPoints k v) sd = points_setitem k v sd"
| "insert_into (IntoShapes k v) sd = shapes_setitem k v sd"
| "insert_into (IntoTables k v) sd = tables_setitem k v sd"

text \<open>Every insertion of the sequence is attempted; a failed one leaves the state it found.\<close>

fun insert_all :: "insertion list \<Rightarrow> sdata \<Rightarrow> sdata" where
  "insert_all [] sd = sd"
| "insert_all (i # is) sd = insert_all is (snd (insert_into i sd))"

fun succeeded :: "insertion list \<Rightarrow> sdata \<Rightarrow> string list" where
  "succeeded [] sd = []"
| "succeeded (i # is) sd =
     (case insert_into i sd of
        (None, sd') \<Rightarrow> inserted_name i # succeeded is sd'
      | (Some e, sd') \<Rightarrow> succeeded is sd')"

section \<open>Lookup and construction\<close>

text \<open>\<open>SpatialData.get\<close>: the first element or table of that name, \<open>None\<close> otherwise.\<close>

definition get :: "sdata \<Rightarrow> string \<Rightarrow> item option" where
  "get sd key =
     (case find (\<lambda>(t, k, v). k = key) (gen_elements sd) of
        None \<Rightarrow> None
      | Some (t, k, v) \<Rightarrow> Some v)"

text \<open>\<open>table.obs[column].dtype\<close>; a missing column raises \<open>KeyError\<close>.\<close>

definition obs_dtype :: "table \<Rightarrow> string \<Rightarrow> error + dtype" where
  "obs_dtype t c = (case map_of (obs_columns t) c of None \<Rightarrow> Inl KeyError | Some d \<Rightarrow> Inr d)"

text \<open>
  The dtype that \<open>validate_table_in_spatialdata\<close> reads from the annotated element. The
  last branch reads \<open>element.index\<close>, which a table (\<open>AnnData\<close>) does not have.
\<close>

fun element_dtype :: "(addr \<Rightarrow> element) \<Rightarrow> item \<Rightarrow> error + dtype" where
  "element_dtype objs (ElementItem a) =
     (case payload (objs a) of
        SpatialImage d \<Rightarrow> Inr d
      | MultiscaleSpatialImage d \<Rightarrow> Inr d
      | DaskDataFrame d \<Rightarrow> Inr d
      | GeoDataFrame d \<Rightarrow> Inr d)"
| "element_dtype objs (TableItem t) = Inl AttributeError"

definition region_list :: "region \<Rightarrow> string list" where
  "region_list r = (case r of RegionStr s \<Rightarrow> [s] | RegionList rs \<Rightarrow> rs)"

text \<open>
  The loop of \<open>validate_table_in_spatialdata\<close> over the regions: the warnings emitted,
  and the error that ended it, if any.
\<close>

fun validate_regions ::
  "(addr \<Rightarrow> element) \<Rightarrow> sdata \<Rightarrow> table \<Rightarrow> string \<Rightarrow> string list
    \<Rightarrow> warning list \<times> error option" where
  "validate_regions objs sd t ik [] = ([], None)"
| "validate_regions objs sd t ik (r # rs) =
     (case get sd r of
        None \<Rightarrow>
          (case validate_regions objs sd t ik rs of (ws, e) \<Rightarrow> (AnnotatingAbsent r # ws, e))
      | Some el \<Rightarrow>
          (case element_dtype objs el of
             Inl e \<Rightarrow> ([], Some e)
           | Inr dt \<Rightarrow>
               (case obs_dtype t ik of
                  Inl e \<Rightarrow> ([], Some e)
                | Inr td \<Rightarrow>
                    if dt \<noteq> td \<and> (dt = DStr \<or> td = DStr) then ([], Some DtypeMismatchError)
                    else validate_regions objs sd t ik rs)))"

text \<open>
  \<open>validate_table_in_spatialdata\<close>. The schema validation \<open>TableModel().validate\<close> is an
  external validator, taken as the parameter \<open>tmv\<close>.
\<close>

definition validate_table_in_spatialdata ::
  "(table \<Rightarrow> bool) \<Rightarrow> (addr \<Rightarrow> element) \<Rightarrow> sdata \<Rightarrow> table \<Rightarrow> warning list \<times> error option" where
  "validate_table_in_spatialdata tmv objs sd t =
     (if \<not> tmv t then ([], Some StructuralValidationError)
      else case uns_attrs t of
             None \<Rightarrow> ([], None)
           | Some a \<Rightarrow> validate_regions objs sd t (instance_key a) (region_list (region a)))"

text \<open>The loop over \<open>tables.items()\<close> at the end of \<open>__init__\<close>: validate, then insert.\<close>

fun init_tables ::
  "(table \<Rightarrow> bool) \<Rightarrow> (addr \<Rightarrow> element) \<Rightarrow> (string \<times> table) list \<Rightarrow> sdata
    \<Rightarrow> warning list \<times> (error + sdata)" where
  "init_tables tmv objs [] sd = ([], Inr sd)"
| "init_tables tmv objs ((k, v) # kvs) sd =
     (case validate_table_in_spatialdata tmv objs sd v of
        (ws, Some e) \<Rightarrow> (ws, Inl e)
      | (ws, None) \<Rightarrow>
          (case tables_setitem k v sd of
             (Some e, sd') \<Rightarrow> (ws, Inl e)
           | (None, sd') \<Rightarrow>
               (case init_tables tmv objs kvs sd' of (ws', r) \<Rightarrow> (ws @ ws', r))))"

datatype tables_arg = TablesDict "(string \<times> table) list" | SingleTable table

definition dict_items :: "(string \<times> 'v) list option \<Rightarrow> (string \<times> 'v) list" where
  "dict_items d = (case d of None \<Rightarrow> [] | Some kvs \<Rightarrow> kvs)"

text \<open>
  \<open>SpatialData.__init__\<close>. Note the order of the loops: images, labels, shapes, points,
  tables. A single \<open>AnnData\<close> is stored under the name \<open>table\<close>.
\<close>

definition init ::
  "(table \<Rightarrow> bool) \<Rightarrow> (addr \<Rightarrow> element)
    \<Rightarrow> (string \<times> addr) list option \<Rightarrow> (string \<times> addr) list option
    \<Rightarrow> (string \<times> addr) list option \<Rightarrow> (string \<times> addr) list option
    \<Rightarrow> tables_arg option \<Rightarrow> warning list \<times> (error + sdata)" where
  "init tmv objs imgs lbls pts shps tbls =
     (let tbls' = (case tbls of
                     None \<Rightarrow> []
                   | Some (SingleTable t) \<Rightarrow> [(''table'', t)]
                   | Some (TablesDict d) \<Rightarrow> d);
          names = map fst (dict_items imgs) @ map fst (dict_items lbls) @
                  map fst (dict_items pts) @ map fst (dict_items shps)
      in if \<not> distinct names then ([], Inl ElementNamesNotUnique)
         else case setitems images_setitem (dict_items imgs) empty_sdata of
                (Some e, sd1) \<Rightarrow> ([], Inl e)
              | (None, sd1) \<Rightarrow>
           (case setitems labels_setitem (dict_items lbls) sd1 of
                (Some e, sd2) \<Rightarrow> ([], Inl e)
              | (None, sd2) \<Rightarrow>
           (case setitems shapes_setitem (dict_items shps) sd2 of
                (Some e, sd3) \<Rightarrow> ([], Inl e)
              | (None, sd3) \<Rightarrow>
           (case setitems points_setitem (dict_items pts) sd3 of
                (Some e, sd4) \<Rightarrow> ([], Inl e)
              | (None, sd4) \<Rightarrow> init_tables tmv objs tbls' sd4))))"

section \<open>Annotation linkage\<close>

text \<open>
  Modelled from the spec: \<open>TableModel._validate_set_region_key\<close>,
  \<open>TableModel._validate_set_instance_key\<close> and \<open>check_target_region_column_symmetry\<close>
  (\<open>spatialdata/models\<close>) are not among the sources. Section 4.2: the bind re-validates that
  the existing (or newly supplied) key columns exist in the table, and that the set of
  distinct values of the region-key column is a subset of the declared region set;
  section 7: every such error is raised before any metadata mutation.
\<close>

definition validate_set_region_key :: "table \<Rightarrow> string option \<Rightarrow> error option" where
  "validate_set_region_key t rk =
     (case rk of
        Some k \<Rightarrow> if k \<in> fst ` set (obs_columns t) then None else Some RegionKeyError
      | None \<Rightarrow>
          (case uns_attrs t of
             None \<Rightarrow> Some RegionKeyError
           | Some a \<Rightarrow>
               if region_key a \<in> fst ` set (obs_columns t) then None else Some RegionKeyError))"

definition validate_set_instance_key :: "table \<Rightarrow> string option \<Rightarrow> error option" where
  "validate_set_instance_key t ik =
     (case ik of
        Some k \<Rightarrow> if k \<in> fst ` set (obs_columns t) then None else Some InstanceKeyError
      | None \<Rightarrow>
          (case uns_attrs t of
             None \<Rightarrow> Some InstanceKeyError
           | Some a \<Rightarrow>
               if instance_key a \<in> fst ` set (obs_columns t) then None
               else Some InstanceKeyError))"

definition column_values :: "table \<Rightarrow> string \<Rightarrow> string list" where
  "column_values t c = map (\<lambda>row. row c) (obs_rows t)"

definition check_target_region_column_symmetry ::
  "table \<Rightarrow> string \<Rightarrow> region \<Rightarrow> error option" where
  "check_target_region_column_symmetry t rk r =
     (if rk \<notin> fst ` set (obs_columns t) then Some KeyError
      else if set (column_values t rk) \<subseteq> set (region_list r) then None
      else Some SymmetryError)"

text \<open>
  \<open>_set_table_annotation_target\<close>: the table after the call, and the error if any. The
  assignment to \<open>table.uns\<close> is the last statement.
\<close>

definition set_table_annotation_target ::
  "table \<Rightarrow> region \<Rightarrow> string \<Rightarrow> string \<Rightarrow> error option \<times> table" where
  "set_table_annotation_target t r rk ik =
     (case validate_set_region_key t (Some rk) of
        Some e \<Rightarrow> (Some e, t)
      | None \<Rightarrow>
     (case validate_set_instance_key t (Some ik) of
        Some e \<Rightarrow> (Some e, t)
      | None \<Rightarrow>
     (case check_target_region_column_symmetry t rk r of
        Some e \<Rightarrow> (Some e, t)
      | None \<Rightarrow>
          (None, t\<lparr>uns_attrs := Some \<lparr>region = r, region_key = rk, instance_key = ik\<rparr>\<rparr>))))"

text \<open>
  \<open>_change_table_annotation_target\<close>. \<open>region_key if region_key else attrs.get(...)\<close>
  takes the stored key also for an empty string. Only the region entry is assigned.
\<close>

definition change_table_annotation_target ::
  "table \<Rightarrow> region \<Rightarrow> string option \<Rightarrow> string option \<Rightarrow> error option \<times> table" where
  "change_table_annotation_target t r rk ik =
     (case uns_attrs t of
        None \<Rightarrow> (Some KeyError, t)
      | Some a \<Rightarrow>
          (let table_region_key =
                 (case rk of None \<Rightarrow> region_key a | Some k \<Rightarrow> if k = [] then region_key a else k)
           in case validate_set_region_key t rk of
                Some e \<Rightarrow> (Some e, t)
              | None \<Rightarrow>
             (case validate_set_instance_key t ik of
                Some e \<Rightarrow> (Some e, t)
              | None \<Rightarrow>
             (case check_target_region_column_symmetry t table_region_key r of
                Some e \<Rightarrow> (Some e, t)
              | None \<Rightarrow> (None, t\<lparr>uns_attrs := Some (a\<lparr>region := r\<rparr>)\<rparr>)))))"

text \<open>
  \<open>set_table_annotates_spatialelement\<close>. \<open>region not in element_names\<close> hashes the
  region: a list or a \<open>pandas.Series\<close> is unhashable, which raises \<open>TypeError\<close>. The table
  object is changed in place, so the entry of the mapping shows the change.
\<close>

definition set_table_annotates_spatialelement ::
  "sdata \<Rightarrow> string \<Rightarrow> region \<Rightarrow> string option \<Rightarrow> string option \<Rightarrow> error option \<times> sdata" where
  "set_table_annotates_spatialelement sd table_name r rk ik =
     (case map_of (data (tables sd)) table_name of
        None \<Rightarrow> (Some KeyError, sd)
      | Some t \<Rightarrow>
          (case r of
             RegionList rs \<Rightarrow> (Some UnhashableTypeError, sd)
           | RegionStr s \<Rightarrow>
               if s \<notin> set (map (\<lambda>(ty, k, v). k) (gen_spatial_elements sd))
               then (Some UnknownTargetError, sd)
               else
                 (let (e, t') =
                        (if uns_attrs t \<noteq> None then change_table_annotation_target t r rk ik
                         else case (rk, ik) of
                                (Some rk', Some ik') \<Rightarrow> set_table_annotation_target t r rk' ik'
                              | _ \<Rightarrow> (Some MissingKeysError, t))
                  in (e, sd\<lparr>tables := (tables sd)\<lparr>data :=
                            AList.update table_name t' (data (tables sd))\<rparr>\<rparr>))))"

section \<open>Coordinate systems\<close>

text \<open>
  Modelled from the spec: \<open>get_transformation(element, get_all=True)\<close> and
  \<open>set_transformation(element, d, set_all=True)\<close> (\<open>spatialdata/transformations\<close>) are not
  among the sources. Section 3: each element carries its (coordinate-system name to
  transformation) entries in its own metadata; the first reads that mapping, the second
  replaces it. They are the field \<open>transformations\<close> of the element at an address.
\<close>

text \<open>
  \<open>coordinate_systems\<close>: Python builds a set and returns it as a list, whose order is not
  specified; the callers below only test membership.
\<close>

definition coordinate_systems :: "(addr \<Rightarrow> element) \<Rightarrow> sdata \<Rightarrow> string list" where
  "coordinate_systems objs sd =
     remdups (concat (map (\<lambda>a. map fst (transformations (objs a)))
                          (gen_spatial_element_values sd)))"

text \<open>The validity check of \<open>rename_coordinate_systems\<close>, with the growing \<open>new_names\<close>.\<close>

fun check_rename_dict :: "string list \<Rightarrow> string list \<Rightarrow> (string \<times> string) list \<Rightarrow> error option" where
  "check_rename_dict old_names new_names [] = None"
| "check_rename_dict old_names new_names ((old_cs, new_cs) # rd) =
     (if old_cs \<notin> set old_names then Some UnknownCoordinateSystemError
      else if new_cs \<in> set new_names then Some RenameCollisionError
      else check_rename_dict old_names (new_names @ [new_cs]) rd)"

text \<open>
  The first inner loop: every renamed entry moves to the key \<open>new_cs + random_suffix\<close>.
  The random suffixes (eight hexadecimal digits of a SHA-1 of \<open>os.urandom(128)\<close>) are the
  draws \<open>rnd 0, rnd 1, ...\<close> of the run, taken in order; the state is the dictionary, the
  set \<open>suffixes_to_replace\<close> and the number of draws made.
\<close>

fun add_suffixes ::
  "(nat \<Rightarrow> string) \<Rightarrow> (string \<times> string) list
    \<Rightarrow> (string \<times> transformation) list \<times> string set \<times> nat
    \<Rightarrow> (string \<times> transformation) list \<times> string set \<times> nat" where
  "add_suffixes rnd [] st = st"
| "add_suffixes rnd ((old_cs, new_cs) # rd) (tr, sfx, n) =
     (case map_of tr old_cs of
        None \<Rightarrow> add_suffixes rnd rd (tr, sfx, n)
      | Some v \<Rightarrow>
          add_suffixes rnd rd
            (AList.update (new_cs @ rnd n) v (AList.delete old_cs tr),
             insert (new_cs @ rnd n) sfx, Suc n))"

text \<open>The second inner loop: \<open>cs_with_suffix[:-8]\<close> drops the last eight characters.\<close>

fun remove_suffixes ::
  "(string \<times> transformation) list \<Rightarrow> string set \<Rightarrow> (string \<times> transformation) list
    \<Rightarrow> (string \<times> transformation) list" where
  "remove_suffixes [] sfx new_transformations = new_transformations"
| "remove_suffixes ((cs_with_suffix, v) # tr) sfx new_transformations =
     (if cs_with_suffix \<in> sfx
      then remove_suffixes tr (sfx - {cs_with_suffix})
             (AList.update (take (length cs_with_suffix - 8) cs_with_suffix) v new_transformations)
      else remove_suffixes tr sfx (AList.update cs_with_suffix v new_transformations))"

text \<open>The body of the loop over the elements, on the store of element objects.\<close>

definition rename_element ::
  "(nat \<Rightarrow> string) \<Rightarrow> (string \<times> string) list \<Rightarrow> addr
    \<Rightarrow> (addr \<Rightarrow> element) \<times> nat \<Rightarrow> (addr \<Rightarrow> element) \<times> nat" where
  "rename_element rnd rd a st =
     (case st of (objs, n) \<Rightarrow>
        (case add_suffixes rnd rd (transformations (objs a), {}, n) of
           (tr, sfx, n') \<Rightarrow>
             (objs(a := (objs a)\<lparr>transformations := remove_suffixes tr sfx []\<rparr>), n')))"

text \<open>
  \<open>rename_coordinate_systems\<close>: \<open>rename_dict.items()\<close> is the list \<open>rd\<close>. The result is the
  store of element objects after the call, and the error if any.
\<close>

definition rename_coordinate_systems ::
  "(nat \<Rightarrow> string) \<Rightarrow> (string \<times> string) list \<Rightarrow> (addr \<Rightarrow> element) \<Rightarrow> sdata
    \<Rightarrow> error option \<times> (addr \<Rightarrow> element)" where
  "rename_coordinate_systems rnd rd objs sd =
     (let old_names = coordinate_systems objs sd;
          new_names = filter (\<lambda>c. c \<notin> set (map fst rd)) old_names
      in case check_rename_dict old_names new_names rd of
           Some e \<Rightarrow> (Some e, objs)
         | None \<Rightarrow>
             (None, fst (fold (rename_element rnd rd) (gen_spatial_element_values sd) (objs, 0))))"

section \<open>Subsetting\<close>

text \<open>
  Modelled from the spec: \<open>_filter_table_by_elements\<close> and \<open>_filter_table_by_element_names\<close>
  (\<open>spatialdata/_core/query/relational_query.py\<close>) are not among the sources. Section 4.4,
  the filter rule shared by both paths: rows whose region-key value is not among the
  keep-set are dropped. A table without annotation metadata has no region-key value in any
  row.
\<close>

definition filter_table_by_element_names :: "table \<Rightarrow> string list \<Rightarrow> table" where
  "filter_table_by_element_names t names =
     (case uns_attrs t of
        None \<Rightarrow> t\<lparr>obs_rows := []\<rparr>
      | Some a \<Rightarrow> t\<lparr>obs_rows := filter (\<lambda>row. row (region_key a) \<in> set names) (obs_rows t)\<rparr>)"

definition filter_table_by_elements :: "table \<Rightarrow> (string \<times> (string \<times> addr) list) list \<Rightarrow> table" where
  "filter_table_by_elements t elements_dict =
     filter_table_by_element_names t (concat (map (\<lambda>(ty, d). map fst d) elements_dict))"

datatype by_mode = ByCs | ByElements

text \<open>The loop of \<open>_filter_tables\<close> over \<open>self._tables.items()\<close>.\<close>

fun filter_tables_loop ::
  "string set \<Rightarrow> by_mode option \<Rightarrow> bool \<Rightarrow> string list option
    \<Rightarrow> (string \<times> (string \<times> addr) list) list option
    \<Rightarrow> (string \<times> table) list \<Rightarrow> (string \<times> table) list \<Rightarrow> error + (string \<times> table) list" where
  "filter_tables_loop keep by orph names edict [] acc = Inr acc"
| "filter_tables_loop keep by orph names edict ((table_name, t) # ts) acc =
     (if orph \<and> uns_attrs t = None
      then filter_tables_loop keep by orph names edict ts (AList.update table_name t acc)
      else if table_name \<in> keep
      then filter_tables_loop keep by orph names edict ts (AList.update table_name t acc)
      else case by of
             Some ByCs \<Rightarrow>
               (case names of
                  None \<Rightarrow> Inl AssertionError
                | Some ns \<Rightarrow>
                    (let t' = filter_table_by_element_names t ns
                     in if length (obs_rows t') \<noteq> 0
                        then filter_tables_loop keep by orph names edict ts
                               (AList.update table_name t' acc)
                        else filter_tables_loop keep by orph names edict ts acc))
           | Some ByElements \<Rightarrow>
               (case edict of
                  None \<Rightarrow> Inl AssertionError
                | Some ed \<Rightarrow>
                    (let t' = filter_table_by_elements t ed
                     in if length (obs_rows t') \<noteq> 0
                        then filter_tables_loop keep by orph names edict ts
                               (AList.update table_name t' acc)
                        else filter_tables_loop keep by orph names edict ts acc))
           | None \<Rightarrow> filter_tables_loop keep by orph names edict ts acc)"

text \<open>\<open>_filter_tables\<close>: without \<open>filter_tables\<close> the tables of the container are returned.\<close>

definition filter_tables ::
  "sdata \<Rightarrow> string set \<Rightarrow> bool \<Rightarrow> by_mode option \<Rightarrow> bool \<Rightarrow> string list option
    \<Rightarrow> (string \<times> (string \<times> addr) list) list option \<Rightarrow> error + (string \<times> table) list" where
  "filter_tables sd names_tables_to_keep flt by include_orphan_tables names edict =
     (if flt
      then filter_tables_loop names_tables_to_keep by include_orphan_tables names edict
             (data (tables sd)) []
      else Inr (data (tables sd)))"

text \<open>
  The loop of \<open>subset\<close> over \<open>_gen_elements(include_table=True)\<close>:
  \<open>elements_dict.setdefault(element_type, {})[element_name] = element\<close> for an element,
  \<open>names_tables_to_keep.add(element_name)\<close> for a table.
\<close>

fun subset_loop ::
  "string list \<Rightarrow> (string \<times> string \<times> item) list
    \<Rightarrow> (string \<times> (string \<times> addr) list) list \<times> string set
    \<Rightarrow> (string \<times> (string \<times> addr) list) list \<times> string set" where
  "subset_loop names [] st = st"
| "subset_loop names ((element_type, element_name, it) # es) (elements_dict, keep) =
     (if element_name \<in> set names
      then (case it of
              ElementItem a \<Rightarrow>
                subset_loop names es
                  (AList.update element_type
                     (AList.update element_name a
                        (case map_of elements_dict element_type of None \<Rightarrow> [] | Some d \<Rightarrow> d))
                     elements_dict, keep)
            | TableItem t \<Rightarrow> subset_loop names es (elements_dict, insert element_name keep))
      else subset_loop names es (elements_dict, keep))"

text \<open>\<open>subset\<close>: the new container is built by \<open>SpatialData(**elements_dict, tables=tables)\<close>.\<close>

definition subset ::
  "(table \<Rightarrow> bool) \<Rightarrow> (addr \<Rightarrow> element) \<Rightarrow> sdata \<Rightarrow> string list \<Rightarrow> bool \<Rightarrow> bool
    \<Rightarrow> warning list \<times> (error + sdata)" where
  "subset tmv objs sd names flt include_orphan_tables =
     (case subset_loop names (gen_elements sd) ([], {}) of
        (elements_dict, keep) \<Rightarrow>
          (case filter_tables sd keep flt (Some ByElements) include_orphan_tables None
                  (Some elements_dict) of
             Inl e \<Rightarrow> ([], Inl e)
           | Inr tbls \<Rightarrow>
               init tmv objs (map_of elements_dict ''images'') (map_of elements_dict ''labels'')
                 (map_of elements_dict ''points'') (map_of elements_dict ''shapes'')
                 (Some (TablesDict tbls))))"

section \<open>Persistence\<close>

text \<open>
  The file system, as far as the container looks at it: what is found at a path. A Zarr
  store is a group at its root path, a group per element type below it, and one node per
  element below that; the kind-specific writers and readers are external, and a node
  holds what was written.
\<close>

datatype node =
    ZarrGroup
  | ZarrElement element
  | ZarrTable table
  | ConsolidatedMetadata
  | OtherFile

type_synonym disk = "(path \<times> node) list"

text \<open>\<open>os.path.exists(file_path)\<close> and \<open>parse_url(file_path, mode="r") is not None\<close>.\<close>

definition path_exists :: "disk \<Rightarrow> path \<Rightarrow> bool" where
  "path_exists d p = (map_of d p \<noteq> None)"

definition is_zarr :: "disk \<Rightarrow> path \<Rightarrow> bool" where
  "is_zarr d p =
     (case map_of d p of
        Some ZarrGroup \<Rightarrow> True
      | Some (ZarrElement e) \<Rightarrow> True
      | Some (ZarrTable t) \<Rightarrow> True
      | _ \<Rightarrow> False)"

text \<open>
  Modelled from the spec: \<open>_is_subfolder\<close> and \<open>_backed_elements_contained_in_path\<close>
  (\<open>spatialdata/_io/_utils.py\<close>) are not among the sources. Section 4.5: whether the
  target path is an ancestor directory of any file that a lazily-loaded element depends on
  (its backing files), one answer per element; whether one path is an ancestor of the
  other.
\<close>

definition is_subfolder :: "path \<Rightarrow> path \<Rightarrow> bool" where
  "is_subfolder parent child = prefix parent child"

definition backed_elements_contained_in_path ::
  "(addr \<Rightarrow> element) \<Rightarrow> sdata \<Rightarrow> path \<Rightarrow> bool list" where
  "backed_elements_contained_in_path objs sd p =
     map (\<lambda>(ty, k, it).
            case it of
              ElementItem a \<Rightarrow> list_ex (\<lambda>f. is_subfolder p f) (backing_files (objs a))
            | TableItem t \<Rightarrow> False)
         (gen_elements sd)"

text \<open>\<open>_validate_can_safely_write_to_path\<close>: the error it raises, if any.\<close>

definition validate_can_safely_write_to_path ::
  "(addr \<Rightarrow> element) \<Rightarrow> disk \<Rightarrow> sdata \<Rightarrow> path \<Rightarrow> bool \<Rightarrow> bool \<Rightarrow> error option" where
  "validate_can_safely_write_to_path objs d sd file_path overwrite saving_an_element =
     (if path_exists d file_path then
        (if \<not> is_zarr d file_path then Some NotAZarrStore
         else if \<not> overwrite then Some StoreExistsNoOverwrite
         else if list_ex (\<lambda>b. b) (backed_elements_contained_in_path objs sd file_path)
         then Some WouldOrphanBackingData
         else case sd_path sd of
                None \<Rightarrow> None
              | Some sp \<Rightarrow>
                  if is_subfolder sp file_path \<or> is_subfolder file_path sp
                  then (if saving_an_element \<and> is_subfolder sp file_path
                        then Some ElementOverwriteUnsupported
                        else Some OverlapsCurrentStore)
                  else None)
      else None)"

text \<open>
  \<open>zarr.group(store=store, overwrite=overwrite)\<close> at the root, and \<open>require_group\<close>.
  Overwriting removes what was below the path.
\<close>

definition zarr_group :: "disk \<Rightarrow> path \<Rightarrow> bool \<Rightarrow> error + disk" where
  "zarr_group d p overwrite =
     (if overwrite then Inr (AList.update p ZarrGroup (filter (\<lambda>(q, n). \<not> prefix p q) d))
      else if path_exists d p then Inl ContainsGroupError
      else Inr (AList.update p ZarrGroup d))"

definition require_group :: "disk \<Rightarrow> path \<Rightarrow> disk" where
  "require_group d p = (if path_exists d p then d else AList.update p ZarrGroup d)"

definition stored :: "(addr \<Rightarrow> element) \<Rightarrow> item \<Rightarrow> node" where
  "stored objs it = (case it of ElementItem a \<Rightarrow> ZarrElement (objs a) | TableItem t \<Rightarrow> ZarrTable t)"

text \<open>\<open>_write_element\<close>, with \<open>_get_groups_for_element\<close> inlined: the disk after, and the error.\<close>

definition write_element ::
  "(addr \<Rightarrow> element) \<Rightarrow> disk \<Rightarrow> sdata \<Rightarrow> item \<Rightarrow> path \<Rightarrow> string \<Rightarrow> string \<Rightarrow> bool
    \<Rightarrow> error option \<times> disk" where
  "write_element objs d sd it zarr_container_path element_type element_name overwrite =
     (let file_path_of_element = zarr_container_path @ [element_type, element_name]
      in case validate_can_safely_write_to_path objs d sd file_path_of_element overwrite True of
           Some e \<Rightarrow> (Some e, d)
         | None \<Rightarrow>
             if element_type \<notin> set [''images'', ''labels'', ''points'', ''polygons'', ''shapes'',
                                      ''tables'']
             then (Some UnknownElementType, d)
             else
               (let d1 = require_group (require_group d (zarr_container_path @ [element_type]))
                           file_path_of_element
                in if element_type \<in> set [''images'', ''labels'', ''points'', ''shapes'', ''tables'']
                   then (None, AList.update file_path_of_element (stored objs it) d1)
                   else (Some UnknownElementType, d1)))"

fun write_elements ::
  "(addr \<Rightarrow> element) \<Rightarrow> sdata \<Rightarrow> path \<Rightarrow> (string \<times> string \<times> item) list \<Rightarrow> disk
    \<Rightarrow> error option \<times> disk" where
  "write_elements objs sd file_path [] d = (None, d)"
| "write_elements objs sd file_path ((element_type, element_name, it) # es) d =
     (case write_element objs d sd it file_path element_type element_name False of
        (Some e, d') \<Rightarrow> (Some e, d')
      | (None, d') \<Rightarrow> write_elements objs sd file_path es d')"

definition write_consolidated_metadata :: "disk \<Rightarrow> path \<Rightarrow> disk" where
  "write_consolidated_metadata d p = AList.update (p @ [''.zmetadata'']) ConsolidatedMetadata d"

text \<open>
  \<open>SpatialData.write\<close>: the error if any, the disk and the container after the call.
\<close>

definition write_zarr ::
  "(addr \<Rightarrow> element) \<Rightarrow> disk \<Rightarrow> sdata \<Rightarrow> path \<Rightarrow> bool \<Rightarrow> bool \<Rightarrow> error option \<times> disk \<times> sdata" where
  "write_zarr objs d sd file_path overwrite consolidate_metadata =
     (case validate_can_safely_write_to_path objs d sd file_path overwrite False of
        Some e \<Rightarrow> (Some e, d, sd)
      | None \<Rightarrow>
          (case zarr_group d file_path overwrite of
             Inl e \<Rightarrow> (Some e, d, sd)
           | Inr d1 \<Rightarrow>
               (case write_elements objs sd file_path (gen_elements sd) d1 of
                  (Some e, d2) \<Rightarrow> (Some e, d2, sd)
                | (None, d2) \<Rightarrow>
                    (let sd' = (if sd_path sd \<noteq> Some file_path
                                then sd\<lparr>sd_path := Some file_path\<rparr> else sd)
                     in (None,
                         if consolidate_metadata then write_consolidated_metadata d2 file_path
                         else d2,
                         sd')))))"

text \<open>
  \<open>read_zarr\<close>. \<open>for subgroup_name in group\<close> lists the nodes directly below the group;
  names that start with a dot are skipped. An element that is read is a new object, at the
  next free address \<open>nxt\<close> of the store of element objects.
\<close>

definition group_children :: "disk \<Rightarrow> path \<Rightarrow> (string \<times> node) list" where
  "group_children d p = map (\<lambda>(q, n). (last q, n)) (filter (\<lambda>(q, n). q \<noteq> [] \<and> butlast q = p) d)"

definition hidden :: "string \<Rightarrow> bool" where
  "hidden name = (take 1 name = ''.'')"

fun read_group ::
  "(string \<times> node) list \<Rightarrow> (addr \<Rightarrow> element) \<times> addr \<times> (string \<times> addr) list
    \<Rightarrow> error + ((addr \<Rightarrow> element) \<times> addr \<times> (string \<times> addr) list)" where
  "read_group [] st = Inr st"
| "read_group ((subgroup_name, n) # cs) (objs, nxt, acc) =
     (if hidden subgroup_name then read_group cs (objs, nxt, acc)
      else case n of
             ZarrElement e \<Rightarrow>
               read_group cs (objs(nxt := e), Suc nxt, AList.update subgroup_name nxt acc)
           | _ \<Rightarrow> Inl ReadError)"

fun read_table_group :: "(string \<times> node) list \<Rightarrow> table option \<Rightarrow> error + table option" where
  "read_table_group [] tbl = Inr tbl"
| "read_table_group ((subgroup_name, n) # cs) tbl =
     (if hidden subgroup_name then read_table_group cs tbl
      else case n of
             ZarrTable t \<Rightarrow> read_table_group cs (Some t)
           | _ \<Rightarrow> Inl ReadError)"

definition read_selected ::
  "disk \<Rightarrow> path \<Rightarrow> string set \<Rightarrow> string \<Rightarrow> (addr \<Rightarrow> element) \<times> addr
    \<Rightarrow> error + ((addr \<Rightarrow> element) \<times> addr \<times> (string \<times> addr) list)" where
  "read_selected d store selector g st =
     (case st of (objs, nxt) \<Rightarrow>
        if g \<in> selector \<and> path_exists d (store @ [g])
        then read_group (group_children d (store @ [g])) (objs, nxt, [])
        else Inr (objs, nxt, []))"

definition read_zarr ::
  "(table \<Rightarrow> bool) \<Rightarrow> (addr \<Rightarrow> element) \<Rightarrow> addr \<Rightarrow> disk \<Rightarrow> path \<Rightarrow> string list option
    \<Rightarrow> warning list \<times> (error + ((addr \<Rightarrow> element) \<times> addr \<times> sdata))" where
  "read_zarr tmv objs nxt d store selection =
     (if \<not> is_zarr d store then ([], Inl StoreNotFound)
      else
        (let selector = (case selection of
                           None \<Rightarrow> {''images'', ''labels'', ''points'', ''shapes'', ''table''}
                         | Some sel \<Rightarrow>
                             if sel = [] then {''images'', ''labels'', ''points'', ''shapes'', ''table''}
                             else set sel)
         in case read_selected d store selector ''images'' (objs, nxt) of
              Inl e \<Rightarrow> ([], Inl e)
            | Inr (objs1, nxt1, imgs) \<Rightarrow>
           (case read_selected d store selector ''labels'' (objs1, nxt1) of
              Inl e \<Rightarrow> ([], Inl e)
            | Inr (objs2, nxt2, lbls) \<Rightarrow>
           (case read_selected d store selector ''points'' (objs2, nxt2) of
              Inl e \<Rightarrow> ([], Inl e)
            | Inr (objs3, nxt3, pts) \<Rightarrow>
           (case read_selected d store selector ''shapes'' (objs3, nxt3) of
              Inl e \<Rightarrow> ([], Inl e)
            | Inr (objs4, nxt4, shps) \<Rightarrow>
           (case (if ''table'' \<in> selector \<and> path_exists d (store @ [''table''])
                  then read_table_group (group_children d (store @ [''table''])) None
                  else Inr None) of
              Inl e \<Rightarrow> ([], Inl e)
            | Inr tbl \<Rightarrow>
                (case init tmv objs4 (Some imgs) (Some lbls) (Some pts) (Some shps)
                        (map_option SingleTable tbl) of
                   (ws, Inl e) \<Rightarrow> (ws, Inl e)
                 | (ws, Inr sdata) \<Rightarrow>
                     (ws, Inr (objs4, nxt4, sdata\<lparr>sd_path := Some store\<rparr>)))))))))"

section \<open>Auxiliary notions for the proofs\<close>

text \<open>
  All five mappings refer to one set object, which holds exactly the names of the
  container, and no name occurs twice.
\<close>

definition names_shared :: "sdata \<Rightarrow> bool" where
  "names_shared sd =
     (shared_keys_ref (labels sd) = shared_keys_ref (images sd) \<and>
      shared_keys_ref (points sd) = shared_keys_ref (images sd) \<and>
      shared_keys_ref (shapes sd) = shared_keys_ref (images sd) \<and>
      shared_keys_ref (tables sd) = shared_keys_ref (images sd) \<and>
      key_sets sd (shared_keys_ref (images sd)) = set (element_names sd) \<and>
      distinct (element_names sd))"

text \<open>
  One visit of \<open>rename_coordinate_systems\<close> to an element, stated without temporary keys:
  \<open>move_entries\<close> takes the renamed entries out of the dictionary, in the order of the
  rename mapping, and keeps them with their new names; \<open>renamed_ledger\<close> then writes the
  remaining entries and the moved ones into a new dictionary. \<open>tag\<close> gives the moved
  entries the temporary keys of a run.
\<close>

fun tag :: "(nat \<Rightarrow> string) \<Rightarrow> nat \<Rightarrow> (string \<times> 'v) list \<Rightarrow> (string \<times> 'v) list" where
  "tag rnd n [] = []"
| "tag rnd n ((new_cs, v) # t) = (new_cs @ rnd n, v) # tag rnd (Suc n) t"

fun move_entries ::
  "(string \<times> string) list
    \<Rightarrow> (string \<times> transformation) list \<times> (string \<times> transformation) list
    \<Rightarrow> (string \<times> transformation) list \<times> (string \<times> transformation) list" where
  "move_entries [] st = st"
| "move_entries ((old_cs, new_cs) # rd) (r, t) =
     (case map_of r old_cs of
        None \<Rightarrow> move_entries rd (r, t)
      | Some v \<Rightarrow> move_entries rd (AList.delete old_cs r, t @ [(new_cs, v)]))"

definition renamed_ledger ::
  "(string \<times> string) list \<Rightarrow> (string \<times> transformation) list \<Rightarrow> (string \<times> transformation) list" where
  "renamed_ledger rd tr =
     (case move_entries rd (tr, []) of (r, t) \<Rightarrow> fold (\<lambda>(k, v). AList.update k v) (r @ t) [])"

definition rename_visit :: "(string \<times> string) list \<Rightarrow> addr \<Rightarrow> (addr \<Rightarrow> element) \<Rightarrow> (addr \<Rightarrow> element)" where
  "rename_visit rd a objs = objs(a := (objs a)\<lparr>transformations := renamed_ledger rd (transformations (objs a))\<rparr>)"

text \<open>
  The draws of a run are fresh for the new names \<open>news\<close> and the names \<open>used\<close>: every
  draw has eight characters, and no new name followed by a draw is a name in use.
\<close>

definition fresh_draws :: "(nat \<Rightarrow> string) \<Rightarrow> string set \<Rightarrow> string set \<Rightarrow> bool" where
  "fresh_draws rnd news used =
     ((\<forall>j. length (rnd j) = 8) \<and> (\<forall>j. \<forall>new_cs\<in>news. new_cs @ rnd j \<notin> used))"


text \<open>The exchange of the two names \<open>A\<close> and \<open>B\<close>.\<close>

definition swap_name :: "string \<Rightarrow> string \<Rightarrow> string \<Rightarrow> string" where
  "swap_name A B k = (if k = A then B else if k = B then A else k)"


text \<open>The dtype an element's payload carries, whatever its class.\<close>

fun dtype_of_payload :: "payload \<Rightarrow> dtype" where
  "dtype_of_payload (SpatialImage d) = d"
| "dtype_of_payload (MultiscaleSpatialImage d) = d"
| "dtype_of_payload (DaskDataFrame d) = d"
| "dtype_of_payload (GeoDataFrame d) = d"


text \<open>The element names of the dictionary \<open>elements_dict\<close> of \<open>subset\<close>.\<close>

definition names_in :: "(string \<times> (string \<times> addr) list) list \<Rightarrow> string set" where
  "names_in ed = set (concat (map (\<lambda>(ty, d). map fst d) ed))"

text \<open>
  How a table of the result of \<open>_filter_tables\<close> got there: as an orphan, as a table that
  was asked for by name, or filtered and left with at least one row.
\<close>

definition kept_as ::
  "string set \<Rightarrow> bool \<Rightarrow> (string \<times> (string \<times> addr) list) list \<Rightarrow> (string \<times> table) list
    \<Rightarrow> string \<times> table \<Rightarrow> bool" where
  "kept_as keep orph ed ts nt =
     (case nt of (n, t') \<Rightarrow>
        (orph \<and> uns_attrs t' = None \<and> (n, t') \<in> set ts) \<or>
        (n \<in> keep \<and> (n, t') \<in> set ts) \<or>
        (\<exists>t. (n, t) \<in> set ts \<and> t' = filter_table_by_elements t ed \<and> obs_rows t' \<noteq> []))"


section \<open>Name uniqueness\<close>

lemmas setitem_defs = images_setitem_def labels_setitem_def points_setitem_def
  shapes_setitem_def tables_setitem_def elements_setitem_def

lemma element_names_eq:
  "element_names sd =
     map fst (data (images sd)) @ map fst (data (labels sd)) @ map fst (data (points sd)) @
     map fst (data (shapes sd)) @ map fst (data (tables sd))"
  by (simp add: element_names_def gen_elements_def gen_spatial_elements_def comp_def
      case_prod_unfold)

lemma names_shared_empty: "names_shared empty_sdata"
  by (simp add: names_shared_def element_names_eq empty_sdata_def)

lemma insert_into_cases:
  assumes "names_shared sd"
  shows "(inserted_name i \<in> set (element_names sd) \<and>
            insert_into i sd = (Some NameCollisionError, sd)) \<or>
         (inserted_name i \<notin> set (element_names sd) \<and> fst (insert_into i sd) = None \<and>
            names_shared (snd (insert_into i sd)) \<and>
            set (element_names (snd (insert_into i sd))) =
              insert (inserted_name i) (set (element_names sd)))"
  using assms
  by (cases i) (auto simp: names_shared_def setitem_defs element_names_eq)

lemma names_shared_step: "names_shared sd \<Longrightarrow> names_shared (snd (insert_into i sd))"
  using insert_into_cases[of sd i] by auto

lemma names_shared_insert_all: "names_shared sd \<Longrightarrow> names_shared (insert_all ins sd)"
  by (induction ins arbitrary: sd) (auto simp: names_shared_step)

lemma succeeded_fresh:
  "names_shared sd \<Longrightarrow>
     distinct (succeeded ins sd) \<and> set (succeeded ins sd) \<inter> set (element_names sd) = {} \<and>
     set (element_names (insert_all ins sd)) = set (element_names sd) \<union> set (succeeded ins sd)"
proof (induction ins arbitrary: sd)
  case Nil
  then show ?case by simp
next
  case (Cons i ins)
  from insert_into_cases[OF Cons.prems, of i] show ?case
  proof
    assume a: "inserted_name i \<in> set (element_names sd) \<and>
            insert_into i sd = (Some NameCollisionError, sd)"
    with Cons.IH[OF Cons.prems] show ?thesis by simp
  next
    assume a: "inserted_name i \<notin> set (element_names sd) \<and> fst (insert_into i sd) = None \<and>
            names_shared (snd (insert_into i sd)) \<and>
            set (element_names (snd (insert_into i sd))) =
              insert (inserted_name i) (set (element_names sd))"
    obtain sd' where sd': "insert_into i sd = (None, sd')"
      using a by (cases "insert_into i sd") auto
    from a sd' have ns: "names_shared sd'"
      and en: "set (element_names sd') = insert (inserted_name i) (set (element_names sd))"
      by auto
    from Cons.IH[OF ns] en a sd' show ?thesis by auto
  qed
qed

text \<open>
  C2. For every sequence of insertions across the five kinds into a new container: the
  names of the insertions that succeeded are pairwise distinct (no two insertions of one
  name both succeed), they are exactly the names the container then holds, no name is
  held twice, and a further insertion of a name the container holds, into any kind, raises
  the name collision and leaves the container, with all five mappings, as it was.
\<close>

theorem name_uniqueness:
  "distinct (succeeded ins empty_sdata) \<and>
   distinct (element_names (insert_all ins empty_sdata)) \<and>
   set (element_names (insert_all ins empty_sdata)) = set (succeeded ins empty_sdata) \<and>
   (inserted_name i \<in> set (element_names (insert_all ins empty_sdata)) \<longrightarrow>
      insert_into i (insert_all ins empty_sdata) =
        (Some NameCollisionError, insert_all ins empty_sdata))"
proof -
  have ns: "names_shared (insert_all ins empty_sdata)"
    by (rule names_shared_insert_all[OF names_shared_empty])
  have e: "set (element_names empty_sdata) = {}"
    by (simp add: element_names_eq empty_sdata_def)
  from succeeded_fresh[OF names_shared_empty, of ins] e
  have "distinct (succeeded ins empty_sdata)"
    and "set (element_names (insert_all ins empty_sdata)) = set (succeeded ins empty_sdata)"
    by auto
  moreover from ns have "distinct (element_names (insert_all ins empty_sdata))"
    by (simp add: names_shared_def)
  moreover from insert_into_cases[OF ns, of i]
  have "inserted_name i \<in> set (element_names (insert_all ins empty_sdata)) \<longrightarrow>
      insert_into i (insert_all ins empty_sdata) =
        (Some NameCollisionError, insert_all ins empty_sdata)"
    by auto
  ultimately show ?thesis by blast
qed

theorem name_uniqueness_witness:
  "succeeded [IntoImages ''a'' 1,
              IntoTables ''a'' \<lparr>obs_columns = [], obs_rows = [], uns_attrs = None\<rparr>,
              IntoLabels ''b'' 2] empty_sdata = [''a'', ''b''] \<and>
   insert_into (IntoShapes ''a'' 3)
     (insert_all [IntoImages ''a'' 1,
                  IntoTables ''a'' \<lparr>obs_columns = [], obs_rows = [], uns_attrs = None\<rparr>,
                  IntoLabels ''b'' 2] empty_sdata) =
   (Some NameCollisionError,
     insert_all [IntoImages ''a'' 1,
                 IntoTables ''a'' \<lparr>obs_columns = [], obs_rows = [], uns_attrs = None\<rparr>,
                 IntoLabels ''b'' 2] empty_sdata)"
  using name_uniqueness[of "[IntoImages ''a'' 1,
              IntoTables ''a'' \<lparr>obs_columns = [], obs_rows = [], uns_attrs = None\<rparr>,
              IntoLabels ''b'' 2]" "IntoShapes ''a'' 3"]
  by (simp add: setitem_defs empty_sdata_def element_names_eq)

section \<open>The setters and the shared set\<close>

text \<open>
  C3. A container holds the image \<open>a\<close>; the images are assigned the mapping with the single
  name \<open>b\<close>; then the name \<open>b\<close> is inserted into the labels. The setter succeeds, and so
  does the insertion: the labels still refer to the set object of before the assignment,
  which never received \<open>b\<close>. The container then holds \<open>b\<close> twice, and
  \<open>_validate_element_names_are_unique\<close> rejects it.
\<close>

theorem images_setter_unshares_names:
  "(case images_setter [(''b'', 2)] (snd (images_setitem ''a'' 1 empty_sdata)) of
      (e1, sd1) \<Rightarrow>
        e1 = None \<and> shared_keys_ref (labels sd1) \<noteq> shared_keys_ref (images sd1) \<and>
        (case labels_setitem ''b'' 3 sd1 of
           (e2, sd2) \<Rightarrow>
             e2 = None \<and> map fst (data (images sd2)) = [''b''] \<and>
             map fst (data (labels sd2)) = [''b''] \<and>
             validate_element_names_are_unique sd2 = Some ElementNamesNotUnique))"
  by (simp add: setitem_defs empty_sdata_def images_setter_def rebind_shared_keys_def Let_def
      validate_element_names_are_unique_def element_names_eq)

section \<open>Renaming coordinate systems\<close>

lemma tag_append: "tag rnd n (t @ [(c, v)]) = tag rnd n t @ [(c @ rnd (n + length t), v)]"
  by (induction t arbitrary: n) auto

lemma tag_keys_ex:
  "k \<in> fst ` set (tag rnd n t) \<Longrightarrow> \<exists>c j. k = c @ rnd j \<and> c \<in> fst ` set t"
proof (induction t arbitrary: n)
  case Nil
  then show ?case by simp
next
  case (Cons p t)
  obtain c v where p: "p = (c, v)" by (cases p)
  from Cons.prems p have "k = c @ rnd n \<or> k \<in> fst ` set (tag rnd (Suc n) t)" by auto
  then show ?case
  proof
    assume "k = c @ rnd n"
    then show ?thesis using p by auto
  next
    assume "k \<in> fst ` set (tag rnd (Suc n) t)"
    from Cons.IH[OF this] obtain c' j where "k = c' @ rnd j" "c' \<in> fst ` set t" by blast
    then show ?thesis by auto
  qed
qed

lemma update_fresh: "k \<notin> fst ` set al \<Longrightarrow> AList.update k v al = al @ [(k, v)]"
  by (induction al) auto

lemma delete_append: "AList.delete k (xs @ ys) = AList.delete k xs @ AList.delete k ys"
  by (simp add: AList.delete_eq)

lemma map_of_append_left:
  "k \<notin> fst ` set ys \<Longrightarrow> (map_of ys ++ map_of xs) k = map_of xs k"
proof -
  assume "k \<notin> fst ` set ys"
  then have "map_of ys k = None" by (simp add: map_of_eq_None_iff)
  then show ?thesis by (simp add: map_add_def split: option.split)
qed

lemma tag_key_neq:
  assumes "\<forall>j. length (rnd j) = 8" "c \<notin> fst ` set t"
  shows "c @ rnd i \<notin> fst ` set (tag rnd n t)"
proof
  assume "c @ rnd i \<in> fst ` set (tag rnd n t)"
  from tag_keys_ex[OF this] obtain c' j where "c @ rnd i = c' @ rnd j" "c' \<in> fst ` set t"
    by blast
  with assms(1) have "c = c'" by (metis append_eq_append_conv)
  with \<open>c' \<in> fst ` set t\<close> assms(2) show False by simp
qed

lemma move_entries_props:
  "move_entries rd (r, t) = (r', t') \<Longrightarrow>
     fst ` set r' \<subseteq> fst ` set r \<and> fst ` set t' \<subseteq> fst ` set t \<union> snd ` set rd"
proof (induction rd arbitrary: r t)
  case Nil
  then show ?case by simp
next
  case (Cons p rd)
  obtain o' c where p: "p = (o', c)" by (cases p)
  show ?case
  proof (cases "map_of r o'")
    case None
    with Cons.prems p have "move_entries rd (r, t) = (r', t')" by simp
    from Cons.IH[OF this] show ?thesis by auto
  next
    case (Some v)
    with Cons.prems p have "move_entries rd (AList.delete o' r, t @ [(c, v)]) = (r', t')" by simp
    from Cons.IH[OF this]
    have a: "fst ` set r' \<subseteq> fst ` set (AList.delete o' r)"
      and b: "fst ` set t' \<subseteq> fst ` set (t @ [(c, v)]) \<union> snd ` set rd" by auto
    from a dom_delete_subset[of o' r] have "fst ` set r' \<subseteq> fst ` set r" by blast
    moreover from b have "fst ` set t' \<subseteq> fst ` set t \<union> snd ` set (p # rd)"
      unfolding p by auto
    ultimately show ?thesis by simp
  qed
qed

lemma move_entries_distinct:
  "move_entries rd (r, t) = (r', t') \<Longrightarrow> distinct (map snd rd) \<Longrightarrow> distinct (map fst t) \<Longrightarrow>
     fst ` set t \<inter> snd ` set rd = {} \<Longrightarrow> distinct (map fst t')"
proof (induction rd arbitrary: r t)
  case Nil
  then show ?case by simp
next
  case (Cons p rd)
  obtain o' c where p: "p = (o', c)" by (cases p)
  show ?case
  proof (cases "map_of r o'")
    case None
    with Cons p show ?thesis by auto
  next
    case (Some v)
    with Cons.prems p have m: "move_entries rd (AList.delete o' r, t @ [(c, v)]) = (r', t')" by simp
    have "distinct (map fst (t @ [(c, v)]))" using Cons.prems p by auto
    moreover have "fst ` set (t @ [(c, v)]) \<inter> snd ` set rd = {}"
      using Cons.prems p by (auto simp: image_iff) 
    moreover have "distinct (map snd rd)" using Cons.prems by simp
    ultimately show ?thesis using Cons.IH[OF m] by blast
  qed
qed

lemma add_suffixes_sim:
  assumes "fresh_draws rnd news used"
    and "distinct (map snd rd)" "distinct (map fst t)" "fst ` set t \<inter> snd ` set rd = {}"
    and "fst ` set r \<subseteq> used" "fst ` set rd \<subseteq> used"
    and "fst ` set t \<subseteq> news" "snd ` set rd \<subseteq> news"
  shows "add_suffixes rnd rd (r @ tag rnd n t, fst ` set (tag rnd n t), n + length t) =
           (case move_entries rd (r, t) of
              (r', t') \<Rightarrow> (r' @ tag rnd n t', fst ` set (tag rnd n t'), n + length t'))"
  using assms(2-)
proof (induction rd arbitrary: r t)
  case Nil
  then show ?case by simp
next
  case (Cons p rd)
  obtain o' c where p: "p = (o', c)" by (cases p)
  have len: "\<forall>j. length (rnd j) = 8" and fr: "\<forall>j. \<forall>c\<in>news. c @ rnd j \<notin> used"
    using assms(1) by (auto simp: fresh_draws_def)
  have o_used: "o' \<in> used" using Cons.prems p by auto
  have c_news: "c \<in> news" using Cons.prems p by auto
  have tagnews: "\<And>k. k \<in> fst ` set (tag rnd n t) \<Longrightarrow> k \<notin> used"
  proof -
    fix k assume "k \<in> fst ` set (tag rnd n t)"
    from tag_keys_ex[OF this] obtain c' j where "k = c' @ rnd j" "c' \<in> fst ` set t" by blast
    with fr Cons.prems(6) show "k \<notin> used" by blast
  qed
  have o_notin: "o' \<notin> fst ` set (tag rnd n t)" using tagnews o_used by blast
  have lk: "(map_of (tag rnd n t) ++ map_of r) o' = map_of r o'"
    by (rule map_of_append_left[OF o_notin])
  show ?case
  proof (cases "map_of r o'")
    case None
    have "distinct (map snd rd)" "fst ` set t \<inter> snd ` set rd = {}" "fst ` set rd \<subseteq> used"
      "snd ` set rd \<subseteq> news"
      using Cons.prems by auto
    from Cons.IH[OF this(1) Cons.prems(2) this(2) Cons.prems(4) this(3) Cons.prems(6) this(4)]
    have ih: "add_suffixes rnd rd (r @ tag rnd n t, fst ` set (tag rnd n t), n + length t) =
           (case move_entries rd (r, t) of
              (r', t') \<Rightarrow> (r' @ tag rnd n t', fst ` set (tag rnd n t'), n + length t'))" .
    have lk2: "(map_of (tag rnd n t) ++ map_of r) o' = None" using lk None by simp
    show ?thesis unfolding p by (simp add: lk2 None ih)
  next
    case (Some v)
    let ?k = "c @ rnd (n + length t)"
    have c_notin_t: "c \<notin> fst ` set t" using Cons.prems(3) p by auto
    have k1: "?k \<notin> fst ` set (tag rnd n t)" by (rule tag_key_neq[OF len c_notin_t])
    have k2: "?k \<notin> fst ` set (AList.delete o' r)"
      using fr c_news Cons.prems(4) dom_delete_subset[of o' r] by blast
    have del: "AList.delete o' (r @ tag rnd n t) = AList.delete o' r @ tag rnd n t"
      using o_notin by (simp add: delete_append)
    have upd: "AList.update ?k v (AList.delete o' r @ tag rnd n t) =
                 AList.delete o' r @ tag rnd n (t @ [(c, v)])"
    proof -
      have "?k \<notin> fst ` set (AList.delete o' r @ tag rnd n t)" using k1 k2 by auto
      from update_fresh[OF this] show ?thesis by (simp add: tag_append)
    qed
    have sfx: "insert ?k (fst ` set (tag rnd n t)) = fst ` set (tag rnd n (t @ [(c, v)]))"
      by (simp add: tag_append)
    have i1: "distinct (map snd rd)" using Cons.prems by simp
    have i2: "distinct (map fst (t @ [(c, v)]))" using Cons.prems(2) c_notin_t by simp
    have i3: "fst ` set (t @ [(c, v)]) \<inter> snd ` set rd = {}"
      using Cons.prems(1,3) p by (auto simp: image_iff)
    have i4: "fst ` set (AList.delete o' r) \<subseteq> used"
      using Cons.prems(4) dom_delete_subset[of o' r] by blast
    have i5: "fst ` set rd \<subseteq> used" using Cons.prems by auto
    have i6: "fst ` set (t @ [(c, v)]) \<subseteq> news" using Cons.prems(6) c_news by auto
    have i7: "snd ` set rd \<subseteq> news" using Cons.prems by auto
    from Cons.IH[OF i1 i2 i3 i4 i5 i6 i7]
    have ih: "add_suffixes rnd rd
            (AList.delete o' r @ tag rnd n (t @ [(c, v)]),
             fst ` set (tag rnd n (t @ [(c, v)])), Suc (n + length t)) =
           (case move_entries rd (AList.delete o' r, t @ [(c, v)]) of
              (r', t') \<Rightarrow> (r' @ tag rnd n t', fst ` set (tag rnd n t'), n + length t'))"
      by simp
    have lk2: "map_of (r @ tag rnd n t) o' = Some v" using lk Some by simp
    have "add_suffixes rnd ((o', c) # rd)
            (r @ tag rnd n t, fst ` set (tag rnd n t), n + length t) =
          add_suffixes rnd rd
            (AList.delete o' r @ tag rnd n (t @ [(c, v)]),
             fst ` set (tag rnd n (t @ [(c, v)])), Suc (n + length t))"
      by (simp add: lk2 del upd sfx del: map_of_append)
    then show ?thesis unfolding p by (simp add: Some ih)
  qed
qed


lemma remove_suffixes_orig:
  "fst ` set r \<inter> S = {} \<Longrightarrow>
     remove_suffixes (r @ xs) S acc = remove_suffixes xs S (fold (\<lambda>(k, v). AList.update k v) r acc)"
proof (induction r arbitrary: acc)
  case Nil
  then show ?case by simp
next
  case (Cons p r)
  obtain k v where p: "p = (k, v)" by (cases p)
  from Cons.prems p have "k \<notin> S" "fst ` set r \<inter> S = {}" by auto
  with Cons.IH[of "AList.update k v acc"] show ?case unfolding p by simp
qed

lemma remove_suffixes_tag:
  assumes "\<forall>j. length (rnd j) = 8"
  shows "distinct (map fst t) \<Longrightarrow>
     remove_suffixes (tag rnd n t) (fst ` set (tag rnd n t)) acc =
       fold (\<lambda>(k, v). AList.update k v) t acc"
proof (induction t arbitrary: n acc)
  case Nil
  then show ?case by simp
next
  case (Cons p t)
  obtain c v where p: "p = (c, v)" by (cases p)
  from Cons.prems p have c: "c \<notin> fst ` set t" and d: "distinct (map fst t)" by auto
  have notin: "c @ rnd n \<notin> fst ` set (tag rnd (Suc n) t)"
    by (rule tag_key_neq[OF assms c])
  have S: "insert (c @ rnd n) (fst ` set (tag rnd (Suc n) t)) - {c @ rnd n} =
             fst ` set (tag rnd (Suc n) t)"
    using notin by auto
  have strip: "take (length (c @ rnd n) - 8) (c @ rnd n) = c"
    using assms by simp
  have "remove_suffixes (tag rnd n ((c, v) # t)) (fst ` set (tag rnd n ((c, v) # t))) acc =
          remove_suffixes (tag rnd (Suc n) t) (fst ` set (tag rnd (Suc n) t))
            (AList.update c v acc)"
    using S strip by simp
  also have "\<dots> = fold (\<lambda>(k, v). AList.update k v) t (AList.update c v acc)"
    by (rule Cons.IH[OF d])
  finally show ?case unfolding p by simp
qed

lemma fold_update_keys:
  "fst ` set (fold (\<lambda>(k, v). AList.update k v) xs acc) = fst ` set acc \<union> fst ` set xs"
proof (induction xs arbitrary: acc)
  case Nil
  then show ?case by simp
next
  case (Cons p xs)
  obtain k v where p: "p = (k, v)" by (cases p)
  show ?case unfolding p using Cons.IH[of "AList.update k v acc"]
    by (auto simp: dom_update)
qed

lemma renamed_ledger_keys:
  "fst ` set (renamed_ledger rd tr) \<subseteq> fst ` set tr \<union> snd ` set rd"
proof -
  obtain r t where m: "move_entries rd (tr, []) = (r, t)" by (cases "move_entries rd (tr, [])")
  from move_entries_props[OF m] have "fst ` set r \<subseteq> fst ` set tr" "fst ` set t \<subseteq> snd ` set rd"
    by auto
  then show ?thesis by (auto simp: renamed_ledger_def m fold_update_keys)
qed

lemma rename_element_fresh:
  assumes fr: "fresh_draws rnd news used"
    and d: "distinct (map snd rd)"
    and k: "fst ` set (transformations (objs a)) \<subseteq> used"
    and o: "fst ` set rd \<subseteq> used" and nw: "snd ` set rd \<subseteq> news"
  shows "fst (rename_element rnd rd a (objs, n)) = rename_visit rd a objs"
proof -
  let ?tr = "transformations (objs a)"
  obtain r t where m: "move_entries rd (?tr, []) = (r, t)"
    by (cases "move_entries rd (?tr, [])")
  have len: "\<forall>j. length (rnd j) = 8" and fr': "\<forall>j. \<forall>c\<in>news. c @ rnd j \<notin> used"
    using fr by (auto simp: fresh_draws_def)
  from add_suffixes_sim[OF fr d _ _ k o _ nw, of "[]" n]
  have sim: "add_suffixes rnd rd (?tr, {}, n) = (r @ tag rnd n t, fst ` set (tag rnd n t), n + length t)"
    using m by simp
  from move_entries_props[OF m] have rk0: "fst ` set r \<subseteq> fst ` set ?tr"
    and tk0: "fst ` set t \<subseteq> snd ` set rd" by auto
  from rk0 k have rk: "fst ` set r \<subseteq> used" by blast
  from tk0 nw have tk: "fst ` set t \<subseteq> news" by blast
  have dt: "distinct (map fst t)"
    by (rule move_entries_distinct[OF m d]) simp_all
  have disj: "fst ` set r \<inter> fst ` set (tag rnd n t) = {}"
  proof -
    { fix x assume "x \<in> fst ` set (tag rnd n t)"
      from tag_keys_ex[OF this] obtain c j where "x = c @ rnd j" "c \<in> fst ` set t" by blast
      with tk fr' have "x \<notin> used" by blast
      with rk have "x \<notin> fst ` set r" by blast }
    then show ?thesis by blast
  qed
  have "remove_suffixes (r @ tag rnd n t) (fst ` set (tag rnd n t)) [] =
          fold (\<lambda>(k, v). AList.update k v) (r @ t) []"
    by (simp add: remove_suffixes_orig[OF disj] remove_suffixes_tag[OF len dt])
  then show ?thesis
    by (simp add: rename_element_def sim rename_visit_def renamed_ledger_def m)
qed

lemma fold_rename_fresh:
  assumes fr: "fresh_draws rnd news used"
    and d: "distinct (map snd rd)"
    and o: "fst ` set rd \<subseteq> used" and nw: "snd ` set rd \<subseteq> news" and nu: "snd ` set rd \<subseteq> used"
  shows "\<forall>a\<in>set as. fst ` set (transformations (objs a)) \<subseteq> used \<Longrightarrow>
     fst (fold (rename_element rnd rd) as (objs, n)) = fold (rename_visit rd) as objs"
proof (induction as arbitrary: objs n)
  case Nil
  then show ?case by simp
next
  case (Cons a as)
  have k: "fst ` set (transformations (objs a)) \<subseteq> used" using Cons.prems by simp
  obtain objs' n' where st: "rename_element rnd rd a (objs, n) = (objs', n')"
    by (cases "rename_element rnd rd a (objs, n)")
  from rename_element_fresh[where objs=objs and a=a and n=n, OF fr d k o nw] st
  have objs': "objs' = rename_visit rd a objs" by simp
  have inv: "\<forall>b\<in>set as. fst ` set (transformations (objs' b)) \<subseteq> used"
  proof
    fix b assume b: "b \<in> set as"
    show "fst ` set (transformations (objs' b)) \<subseteq> used"
    proof (cases "b = a")
      case True
      have "fst ` set (renamed_ledger rd (transformations (objs a))) \<subseteq> used"
        using renamed_ledger_keys[of rd "transformations (objs a)"] k nu by blast
      then show ?thesis using True by (simp add: objs' rename_visit_def)
    next
      case False
      then show ?thesis using Cons.prems b by (simp add: objs' rename_visit_def)
    qed
  qed
  from Cons.IH[OF inv, of n'] show ?case by (simp add: st objs')
qed

lemma fold_visit_keys:
  "fst ` set (transformations (fold (rename_visit rd) as objs a)) \<subseteq>
     fst ` set (transformations (objs a)) \<union> snd ` set rd"
proof (induction as arbitrary: objs)
  case Nil
  then show ?case by simp
next
  case (Cons b as)
  have "fst ` set (transformations (rename_visit rd b objs a)) \<subseteq>
          fst ` set (transformations (objs a)) \<union> snd ` set rd"
    using renamed_ledger_keys[of rd "transformations (objs a)"]
    by (cases "a = b") (simp_all add: rename_visit_def)
  with Cons.IH[of "rename_visit rd b objs"] show ?case by (simp, blast)
qed

lemma check_rename_dict_distinct:
  "check_rename_dict old_names new_names rd = None \<Longrightarrow>
     distinct (map snd rd) \<and> set new_names \<inter> snd ` set rd = {}"
proof (induction rd arbitrary: new_names)
  case Nil
  then show ?case by simp
next
  case (Cons p rd)
  obtain o' c where p: "p = (o', c)" by (cases p)
  from Cons.prems p have c: "c \<notin> set new_names"
    and rest: "check_rename_dict old_names (new_names @ [c]) rd = None"
    by (auto split: if_splits)
  from Cons.IH[OF rest] c show ?case unfolding p by auto
qed

lemma coordinate_systems_keys:
  "a \<in> set (gen_spatial_element_values sd) \<Longrightarrow>
     fst ` set (transformations (objs a)) \<subseteq> set (coordinate_systems objs sd)"
  by (auto simp: coordinate_systems_def)

text \<open>
  C10 (amended). Two runs of \<open>rename_coordinate_systems\<close> from the same state, with any
  rename mapping, whose draws are both fresh (no new name followed by a draw is a
  coordinate system of the container or a name of the mapping), end with the same error or
  success and the same ledgers for every element, and every key of a ledger after the run
  is a key it had before or a new name of the mapping.
\<close>

theorem rename_deterministic:
  assumes "fresh_draws rnd1 (snd ` set rd)
             (set (coordinate_systems objs sd) \<union> fst ` set rd \<union> snd ` set rd)"
    and "fresh_draws rnd2 (snd ` set rd)
             (set (coordinate_systems objs sd) \<union> fst ` set rd \<union> snd ` set rd)"
  shows "rename_coordinate_systems rnd1 rd objs sd = rename_coordinate_systems rnd2 rd objs sd \<and>
         (\<forall>a. fst ` set (transformations (snd (rename_coordinate_systems rnd1 rd objs sd) a)) \<subseteq>
                fst ` set (transformations (objs a)) \<union> snd ` set rd)"
proof (cases "check_rename_dict (coordinate_systems objs sd)
                (filter (\<lambda>c. c \<notin> set (map fst rd)) (coordinate_systems objs sd)) rd")
  case (Some e)
  then show ?thesis by (simp add: rename_coordinate_systems_def Let_def del: set_map)
next
  case None
  let ?used = "set (coordinate_systems objs sd) \<union> fst ` set rd \<union> snd ` set rd"
  let ?as = "gen_spatial_element_values sd"
  from check_rename_dict_distinct[OF None] have d: "distinct (map snd rd)" by simp
  have inv: "\<forall>a\<in>set ?as. fst ` set (transformations (objs a)) \<subseteq> ?used"
    using coordinate_systems_keys[of _ sd objs] by blast
  have f1: "fst (fold (rename_element rnd1 rd) ?as (objs, 0)) = fold (rename_visit rd) ?as objs"
    by (rule fold_rename_fresh[OF assms(1) d _ _ _ inv]) auto
  have f2: "fst (fold (rename_element rnd2 rd) ?as (objs, 0)) = fold (rename_visit rd) ?as objs"
    by (rule fold_rename_fresh[OF assms(2) d _ _ _ inv]) auto
  show ?thesis
    using fold_visit_keys[of rd ?as objs]
    by (simp add: rename_coordinate_systems_def Let_def None f1 f2 del: set_map)
qed

lemma map_of_fold_update:
  "map_of (fold (\<lambda>(k, v). AList.update k v) xs acc) = map_of acc ++ map_of (rev xs)"
proof (induction xs arbitrary: acc)
  case Nil
  then show ?case by simp
next
  case (Cons p xs)
  obtain k v where p: "p = (k, v)" by (cases p)
  have "map_of (fold (\<lambda>(k, v). AList.update k v) (p # xs) acc) =
          map_of (AList.update k v acc) ++ map_of (rev xs)"
    unfolding p using Cons.IH[of "AList.update k v acc"] by simp
  also have "\<dots> = map_of acc ++ map_of (rev (p # xs))"
    unfolding p by (rule ext) (simp add: update_conv' map_add_def split: option.split)
  finally show ?case .
qed

lemma map_of_rev_distinct: "distinct (map fst xs) \<Longrightarrow> map_of (rev xs) = map_of xs"
proof (induction xs)
  case Nil
  then show ?case by simp
next
  case (Cons p xs)
  obtain k v where p: "p = (k, v)" by (cases p)
  from Cons.prems p have k: "map_of xs k = None" and d: "distinct (map fst xs)"
    by (auto simp: map_of_eq_None_iff)
  show ?case unfolding p
    by (rule ext) (simp add: Cons.IH[OF d] map_add_def k split: option.split)
qed

lemma renamed_ledger_map:
  "map_of (renamed_ledger rd tr) k =
     (case move_entries rd (tr, []) of
        (r, t) \<Rightarrow> (case map_of (rev t) k of None \<Rightarrow> map_of (rev r) k | Some v \<Rightarrow> Some v))"
  by (simp add: renamed_ledger_def map_of_fold_update map_add_def split: prod.split)

lemma renamed_ledger_swap:
  assumes ab: "A \<noteq> B" and d: "distinct (map fst tr)"
  shows "map_of (renamed_ledger [(A, B), (B, A)] tr) k = map_of tr (swap_name A B k)"
proof -
  have dd: "distinct (map fst (AList.delete A tr))" "distinct (map fst (AList.delete B tr))"
    "distinct (map fst (AList.delete B (AList.delete A tr)))"
    using d by (simp_all add: distinct_delete)
  note rv = map_of_rev_distinct[OF d] map_of_rev_distinct[OF dd(1)] map_of_rev_distinct[OF dd(2)]
    map_of_rev_distinct[OF dd(3)]
  show ?thesis
  proof (cases "map_of tr A")
    case None
    note nA = None
    show ?thesis
    proof (cases "map_of tr B")
      case None
      with nA ab show ?thesis
        by (simp add: renamed_ledger_map rv swap_name_def)
    next
      case (Some vb)
      with nA ab show ?thesis
        by (simp add: renamed_ledger_map rv swap_name_def delete_conv')
    qed
  next
    case (Some va)
    note sA = Some
    show ?thesis
    proof (cases "map_of tr B")
      case None
      with sA ab show ?thesis
        by (simp add: renamed_ledger_map rv swap_name_def delete_conv')
    next
      case (Some vb)
      with sA ab show ?thesis
        by (simp add: renamed_ledger_map rv swap_name_def delete_conv')
    qed
  qed
qed

lemma fold_visit_distinct:
  "distinct as \<Longrightarrow>
     fold (rename_visit rd) as objs a =
       (if a \<in> set as then (objs a)\<lparr>transformations := renamed_ledger rd (transformations (objs a))\<rparr>
        else objs a)"
proof (induction as arbitrary: objs)
  case Nil
  then show ?case by simp
next
  case (Cons b as)
  from Cons.prems have b: "b \<notin> set as" and d: "distinct as" by auto
  show ?case using Cons.IH[OF d, of "rename_visit rd b objs"] b
    by (auto simp: rename_visit_def)
qed

text \<open>
  C4 (amended). In a container in which no element object is registered under two names,
  whose ledgers are dictionaries, and in which the coordinate systems \<open>A\<close> and \<open>B\<close> both
  exist, \<open>rename_coordinate_systems\<close> with the mapping \<open>{A: B, B: A}\<close> and fresh draws
  succeeds, and the ledger of every element then maps each key to what the ledger mapped
  the exchanged key to before: the transformations under \<open>A\<close> and \<open>B\<close> are exchanged and
  every other entry is kept. Objects outside the container are not touched.
\<close>

theorem rename_swap:
  assumes "A \<noteq> B"
    and "fresh_draws rnd {A, B} (set (coordinate_systems objs sd) \<union> {A, B})"
    and "distinct (gen_spatial_element_values sd)"
    and "\<forall>a\<in>set (gen_spatial_element_values sd). distinct (map fst (transformations (objs a)))"
    and "A \<in> set (coordinate_systems objs sd)" and "B \<in> set (coordinate_systems objs sd)"
  shows "fst (rename_coordinate_systems rnd [(A, B), (B, A)] objs sd) = None \<and>
         (\<forall>a\<in>set (gen_spatial_element_values sd). \<forall>k.
            map_of (transformations (snd (rename_coordinate_systems rnd [(A, B), (B, A)] objs sd) a)) k =
            map_of (transformations (objs a)) (swap_name A B k)) \<and>
         (\<forall>a. a \<notin> set (gen_spatial_element_values sd) \<longrightarrow>
            snd (rename_coordinate_systems rnd [(A, B), (B, A)] objs sd) a = objs a)"
proof -
  let ?rd = "[(A, B), (B, A)]"
  let ?cs = "coordinate_systems objs sd"
  let ?as = "gen_spatial_element_values sd"
  have chk: "check_rename_dict ?cs (filter (\<lambda>c. c \<notin> set (map fst ?rd)) ?cs) ?rd = None"
    using assms(1,5,6) by auto
  have fr: "fresh_draws rnd (snd ` set ?rd) (set ?cs \<union> {A, B})"
    using assms(2) by (simp add: insert_commute)
  have inv: "\<forall>a\<in>set ?as. fst ` set (transformations (objs a)) \<subseteq> set ?cs \<union> {A, B}"
    using coordinate_systems_keys[of _ sd objs] by blast
  have f: "fst (fold (rename_element rnd ?rd) ?as (objs, 0)) = fold (rename_visit ?rd) ?as objs"
    by (rule fold_rename_fresh[OF fr _ _ _ _ inv]) (use assms(1) in auto)
  have res: "rename_coordinate_systems rnd ?rd objs sd = (None, fold (rename_visit ?rd) ?as objs)"
    using chk f by (simp add: rename_coordinate_systems_def Let_def del: set_map check_rename_dict.simps)
  show ?thesis
    using assms(4) by (simp add: res fold_visit_distinct[OF assms(3)] renamed_ledger_swap[OF assms(1)])
qed

lemmas rename_eval = rename_coordinate_systems_def rename_element_def coordinate_systems_def
  gen_spatial_element_values_def setitem_defs empty_sdata_def Let_def

theorem rename_swap_witness:
  "fst (rename_coordinate_systems (\<lambda>_. ''00000000'') [(''A'', ''B''), (''B'', ''A'')]
          (\<lambda>_. \<lparr>payload = SpatialImage (DInt 8),
                 transformations = [(''A'', Identity), (''B'', Affine [1])],
                 backing_files = []\<rparr>)
          (snd (images_setitem ''a'' 0 empty_sdata))) = None \<and>
   map_of (transformations (snd (rename_coordinate_systems (\<lambda>_. ''00000000'')
          [(''A'', ''B''), (''B'', ''A'')]
          (\<lambda>_. \<lparr>payload = SpatialImage (DInt 8),
                 transformations = [(''A'', Identity), (''B'', Affine [1])],
                 backing_files = []\<rparr>)
          (snd (images_setitem ''a'' 0 empty_sdata))) 0)) ''A'' = Some (Affine [1]) \<and>
   map_of (transformations (snd (rename_coordinate_systems (\<lambda>_. ''00000000'')
          [(''A'', ''B''), (''B'', ''A'')]
          (\<lambda>_. \<lparr>payload = SpatialImage (DInt 8),
                 transformations = [(''A'', Identity), (''B'', Affine [1])],
                 backing_files = []\<rparr>)
          (snd (images_setitem ''a'' 0 empty_sdata))) 0)) ''B'' = Some Identity"
  using rename_swap[of "''A''" "''B''" "\<lambda>_. ''00000000''"
      "\<lambda>_. \<lparr>payload = SpatialImage (DInt 8),
                 transformations = [(''A'', Identity), (''B'', Affine [1])],
                 backing_files = []\<rparr>"
      "snd (images_setitem ''a'' 0 empty_sdata)"]
  by (simp add: fresh_draws_def coordinate_systems_def gen_spatial_element_values_def
      setitem_defs empty_sdata_def swap_name_def)

text \<open>
  Without those two conditions the swap fails in two ways. An element object registered under
  two names is visited twice, and the second visit exchanges the keys back. A ledger that
  holds the key \<open>Bdeadbeef\<close> loses that entry when the draw is \<open>deadbeef\<close>.
\<close>

theorem rename_swap_counterexample:
  "fst (rename_coordinate_systems (\<lambda>_. ''00000000'') [(''A'', ''B''), (''B'', ''A'')]
          (\<lambda>_. \<lparr>payload = SpatialImage (DInt 8),
                 transformations = [(''A'', Identity), (''B'', Affine [1])],
                 backing_files = []\<rparr>)
          (snd (images_setitem ''b'' 0 (snd (images_setitem ''a'' 0 empty_sdata))))) = None \<and>
   transformations (snd (rename_coordinate_systems (\<lambda>_. ''00000000'')
          [(''A'', ''B''), (''B'', ''A'')]
          (\<lambda>_. \<lparr>payload = SpatialImage (DInt 8),
                 transformations = [(''A'', Identity), (''B'', Affine [1])],
                 backing_files = []\<rparr>)
          (snd (images_setitem ''b'' 0 (snd (images_setitem ''a'' 0 empty_sdata))))) 0) =
     [(''B'', Affine [1]), (''A'', Identity)] \<and>
   fst (rename_coordinate_systems (\<lambda>_. ''deadbeef'') [(''A'', ''B''), (''B'', ''A'')]
          (\<lambda>_. \<lparr>payload = SpatialImage (DInt 8),
                 transformations = [(''A'', Identity), (''B'', Affine [1]),
                                    (''Bdeadbeef'', Affine [2])],
                 backing_files = []\<rparr>)
          (snd (images_setitem ''a'' 0 empty_sdata))) = None \<and>
   transformations (snd (rename_coordinate_systems (\<lambda>_. ''deadbeef'')
          [(''A'', ''B''), (''B'', ''A'')]
          (\<lambda>_. \<lparr>payload = SpatialImage (DInt 8),
                 transformations = [(''A'', Identity), (''B'', Affine [1]),
                                    (''Bdeadbeef'', Affine [2])],
                 backing_files = []\<rparr>)
          (snd (images_setitem ''a'' 0 empty_sdata))) 0) =
     [(''B'', Identity), (''A'', Affine [1])]"
  by (simp add: rename_eval)

theorem rename_deterministic_witness:
  "rename_coordinate_systems (\<lambda>_. ''00000000'') [(''global'', ''aligned'')]
          (\<lambda>_. \<lparr>payload = SpatialImage (DInt 8),
                 transformations = [(''global'', Identity), (''B'', Affine [1])],
                 backing_files = []\<rparr>)
          (snd (images_setitem ''a'' 0 empty_sdata)) =
   rename_coordinate_systems (\<lambda>n. if n = 0 then ''0a1b2c3d'' else ''ffffffff'')
          [(''global'', ''aligned'')]
          (\<lambda>_. \<lparr>payload = SpatialImage (DInt 8),
                 transformations = [(''global'', Identity), (''B'', Affine [1])],
                 backing_files = []\<rparr>)
          (snd (images_setitem ''a'' 0 empty_sdata))"
  using rename_deterministic[of "\<lambda>_. ''00000000''" "[(''global'', ''aligned'')]"
      "\<lambda>_. \<lparr>payload = SpatialImage (DInt 8),
                 transformations = [(''global'', Identity), (''B'', Affine [1])],
                 backing_files = []\<rparr>"
      "snd (images_setitem ''a'' 0 empty_sdata)"
      "\<lambda>n. if n = 0 then ''0a1b2c3d'' else ''ffffffff''"]
  by (simp add: fresh_draws_def coordinate_systems_def gen_spatial_element_values_def
      setitem_defs empty_sdata_def)

text \<open>
  Two runs from one state that end with different ledgers: the draw \<open>deadbeef\<close> makes the
  temporary key of \<open>B\<close> the existing key \<open>Bdeadbeef\<close>, whose entry is overwritten.
\<close>

theorem rename_deterministic_counterexample:
  "transformations (snd (rename_coordinate_systems (\<lambda>_. ''deadbeef'')
          [(''A'', ''B''), (''B'', ''A'')]
          (\<lambda>_. \<lparr>payload = SpatialImage (DInt 8),
                 transformations = [(''A'', Identity), (''B'', Affine [1]),
                                    (''Bdeadbeef'', Affine [2])],
                 backing_files = []\<rparr>)
          (snd (images_setitem ''a'' 0 empty_sdata))) 0) =
     [(''B'', Identity), (''A'', Affine [1])] \<and>
   transformations (snd (rename_coordinate_systems (\<lambda>_. ''00000000'')
          [(''A'', ''B''), (''B'', ''A'')]
          (\<lambda>_. \<lparr>payload = SpatialImage (DInt 8),
                 transformations = [(''A'', Identity), (''B'', Affine [1]),
                                    (''Bdeadbeef'', Affine [2])],
                 backing_files = []\<rparr>)
          (snd (images_setitem ''a'' 0 empty_sdata))) 0) =
     [(''Bdeadbeef'', Affine [2]), (''B'', Identity), (''A'', Affine [1])]"
  by (simp add: rename_eval)

section \<open>Validation of a table against the container\<close>

lemmas lookup_eval = get_def gen_elements_def gen_spatial_elements_def setitem_defs empty_sdata_def
  obs_dtype_def region_list_def

lemma element_dtype_element:
  "element_dtype objs (ElementItem x) = Inr (dtype_of_payload (payload (objs x)))"
  by (cases "payload (objs x)") simp_all

lemma validate_regions_skip:
  "get sd r = None \<Longrightarrow>
     snd (validate_regions objs sd t ik (r # rs)) = snd (validate_regions objs sd t ik rs)"
  by (simp split: prod.split)

lemma validate_regions_warnings:
  "snd (validate_regions objs sd t ik rs) = None \<Longrightarrow>
     fst (validate_regions objs sd t ik rs) =
       map AnnotatingAbsent (filter (\<lambda>r. get sd r = None) rs)"
  by (induction rs)
     (auto simp del: element_dtype.simps split: option.splits sum.splits prod.splits if_splits)

lemma validate_regions_pass:
  "\<forall>r\<in>set rs. get sd r = None \<or>
       (\<exists>x td. get sd r = Some (ElementItem x) \<and> obs_dtype t ik = Inr td \<and>
          \<not> (dtype_of_payload (payload (objs x)) \<noteq> td \<and>
             (dtype_of_payload (payload (objs x)) = DStr \<or> td = DStr))) \<Longrightarrow>
     snd (validate_regions objs sd t ik rs) = None"
proof (induction rs)
  case Nil
  then show ?case by simp
next
  case (Cons r rs)
  from Cons.prems have rest: "\<forall>r\<in>set rs. get sd r = None \<or>
       (\<exists>x td. get sd r = Some (ElementItem x) \<and> obs_dtype t ik = Inr td \<and>
          \<not> (dtype_of_payload (payload (objs x)) \<noteq> td \<and>
             (dtype_of_payload (payload (objs x)) = DStr \<or> td = DStr)))" by simp
  note ih = Cons.IH[OF rest]
  show ?case
  proof (cases "get sd r")
    case None
    then show ?thesis using ih by (simp only: validate_regions_skip[OF None])
  next
    case (Some it)
    with Cons.prems obtain x td where it: "it = ElementItem x" and td: "obs_dtype t ik = Inr td"
      and ok: "\<not> (dtype_of_payload (payload (objs x)) \<noteq> td \<and>
             (dtype_of_payload (payload (objs x)) = DStr \<or> td = DStr))" by auto
    show ?thesis using Some it td ok ih
      by (simp add: element_dtype_element del: element_dtype.simps)
  qed
qed

lemma validate_regions_error:
  "validate_regions objs sd t ik rs = (ws, Some err) \<Longrightarrow>
     \<exists>pre r post. rs = pre @ r # post \<and> get sd r \<noteq> None \<and>
        ws = map AnnotatingAbsent (filter (\<lambda>r. get sd r = None) pre) \<and>
        (\<forall>x td. get sd r = Some (ElementItem x) \<and> obs_dtype t ik = Inr td \<longrightarrow>
           err = DtypeMismatchError \<and> dtype_of_payload (payload (objs x)) \<noteq> td \<and>
           (dtype_of_payload (payload (objs x)) = DStr \<or> td = DStr))"
proof (induction rs arbitrary: ws)
  case Nil
  then show ?case by simp
next
  case (Cons r rs)
  show ?case
  proof (cases "get sd r")
    case None
    from Cons.prems None obtain ws' where v: "validate_regions objs sd t ik rs = (ws', Some err)"
      and ws: "ws = AnnotatingAbsent r # ws'"
      by (auto split: prod.splits)
    from Cons.IH[OF v] obtain pre r' post where p: "rs = pre @ r' # post" "get sd r' \<noteq> None"
      "ws' = map AnnotatingAbsent (filter (\<lambda>r. get sd r = None) pre)"
      "\<forall>x td. get sd r' = Some (ElementItem x) \<and> obs_dtype t ik = Inr td \<longrightarrow>
           err = DtypeMismatchError \<and> dtype_of_payload (payload (objs x)) \<noteq> td \<and>
           (dtype_of_payload (payload (objs x)) = DStr \<or> td = DStr)"
      by blast
    have "r # rs = (r # pre) @ r' # post" using p(1) by simp
    moreover have "ws = map AnnotatingAbsent (filter (\<lambda>r. get sd r = None) (r # pre))"
      using ws p(3) None by simp
    ultimately show ?thesis using p(2,4) by blast
  next
    case (Some it)
    show ?thesis
    proof (cases "validate_regions objs sd t ik (r # rs) = validate_regions objs sd t ik rs")
      case True
      with Cons.prems have v: "validate_regions objs sd t ik rs = (ws, Some err)" by simp
      from Cons.IH[OF v] obtain pre r' post where p: "rs = pre @ r' # post" "get sd r' \<noteq> None"
        "ws = map AnnotatingAbsent (filter (\<lambda>r. get sd r = None) pre)"
        "\<forall>x td. get sd r' = Some (ElementItem x) \<and> obs_dtype t ik = Inr td \<longrightarrow>
           err = DtypeMismatchError \<and> dtype_of_payload (payload (objs x)) \<noteq> td \<and>
           (dtype_of_payload (payload (objs x)) = DStr \<or> td = DStr)"
        by blast
      have "r # rs = (r # pre) @ r' # post" using p(1) by simp
      moreover have "ws = map AnnotatingAbsent (filter (\<lambda>r. get sd r = None) (r # pre))"
        using p(3) Some by simp
      ultimately show ?thesis using p(2,4) by blast
    next
      case False
      have here: "ws = [] \<and> (\<forall>x td. it = ElementItem x \<and> obs_dtype t ik = Inr td \<longrightarrow>
           err = DtypeMismatchError \<and> dtype_of_payload (payload (objs x)) \<noteq> td \<and>
           (dtype_of_payload (payload (objs x)) = DStr \<or> td = DStr))"
        using Cons.prems Some False
        by (cases it)
           (auto simp: element_dtype_element simp del: element_dtype.simps
                 split: sum.splits if_splits)
      have "r # rs = [] @ r # rs" by simp
      moreover have "ws = map AnnotatingAbsent (filter (\<lambda>r. get sd r = None) [])"
        using here by simp
      moreover have "get sd r \<noteq> None" using Some by simp
      moreover have "\<forall>x td. get sd r = Some (ElementItem x) \<and> obs_dtype t ik = Inr td \<longrightarrow>
           err = DtypeMismatchError \<and> dtype_of_payload (payload (objs x)) \<noteq> td \<and>
           (dtype_of_payload (payload (objs x)) = DStr \<or> td = DStr)"
        using here Some by simp
      ultimately show ?thesis by blast
    qed
  qed
qed

text \<open>
  C5. A table whose instance identifiers are strings, bound to a labels element whose
  identifiers are 32-bit integers. A column of Python strings has the pandas \<open>object\<close>
  dtype, which the comparison \<open>dtype == str\<close> of \<open>validate_table_in_spatialdata\<close> does
  not recognise: the validation returns without error and without warning, where a
  dtype mismatch between a string side and a numeric side was to be raised.
\<close>

theorem dtype_gate_misses_string_identifiers:
  "element_dtype
     (\<lambda>_. \<lparr>payload = SpatialImage (DInt 32), transformations = [(''global'', Identity)],
            backing_files = []\<rparr>) (ElementItem 0) = Inr (DInt 32) \<and>
   obs_dtype
     \<lparr>obs_columns = [(''region'', DObject), (''instance_id'', DObject)],
      obs_rows = [\<lambda>c. if c = ''region'' then ''cells'' else ''cell_1'',
                  \<lambda>c. if c = ''region'' then ''cells'' else ''cell_2''],
      uns_attrs = Some \<lparr>region = RegionStr ''cells'', region_key = ''region'',
                         instance_key = ''instance_id''\<rparr>\<rparr> ''instance_id'' = Inr DObject \<and>
   validate_table_in_spatialdata (\<lambda>_. True)
     (\<lambda>_. \<lparr>payload = SpatialImage (DInt 32), transformations = [(''global'', Identity)],
            backing_files = []\<rparr>)
     (snd (labels_setitem ''cells'' 0 empty_sdata))
     \<lparr>obs_columns = [(''region'', DObject), (''instance_id'', DObject)],
      obs_rows = [\<lambda>c. if c = ''region'' then ''cells'' else ''cell_1'',
                  \<lambda>c. if c = ''region'' then ''cells'' else ''cell_2''],
      uns_attrs = Some \<lparr>region = RegionStr ''cells'', region_key = ''region'',
                         instance_key = ''instance_id''\<rparr>\<rparr> = ([], None)"
  by (simp add: validate_table_in_spatialdata_def lookup_eval elements_setitem_def)

lemma get_None_iff: "get sd key = None \<longleftrightarrow> key \<notin> set (element_names sd)"
proof -
  have "find (\<lambda>(t, k, v). k = key) (gen_elements sd) = None \<longleftrightarrow>
          key \<notin> set (element_names sd)"
    by (force simp: find_None_iff element_names_def)
  then show ?thesis
    by (auto simp: get_def split: option.splits)
qed

lemma setitems_ok:
  assumes step: "\<And>k v sd. names_shared sd \<Longrightarrow> k \<notin> set (element_names sd) \<Longrightarrow>
      fst (f k v sd) = None \<and> names_shared (snd (f k v sd)) \<and>
      set (element_names (snd (f k v sd))) = insert k (set (element_names sd))"
  shows "names_shared sd \<Longrightarrow> distinct (map fst d) \<Longrightarrow>
     set (map fst d) \<inter> set (element_names sd) = {} \<Longrightarrow>
     fst (setitems f d sd) = None \<and> names_shared (snd (setitems f d sd)) \<and>
     set (element_names (snd (setitems f d sd))) = set (element_names sd) \<union> set (map fst d)"
proof (induction d arbitrary: sd)
  case Nil
  then show ?case by simp
next
  case (Cons p d)
  obtain k v where p: "p = (k, v)" by (cases p)
  from Cons.prems p have k: "k \<notin> set (element_names sd)" by auto
  obtain sd' where f: "f k v sd = (None, sd')"
    using step[OF Cons.prems(1) k, of v] by (cases "f k v sd") auto
  from step[OF Cons.prems(1) k, of v] f have ns: "names_shared sd'"
    and en: "set (element_names sd') = insert k (set (element_names sd))" by auto
  have d: "distinct (map fst d)" using Cons.prems by simp
  have disj: "set (map fst d) \<inter> set (element_names sd') = {}"
    using Cons.prems p en by auto
  from Cons.IH[OF ns d disj] show ?case unfolding p by (simp add: f en)
qed

lemma setitems_tables_unchanged:
  assumes "\<And>k v sd. tables (snd (f k v sd)) = tables sd"
  shows "tables (snd (setitems f d sd)) = tables sd"
proof (induction d arbitrary: sd)
  case Nil
  then show ?case by simp
next
  case (Cons p d)
  obtain k v where p: "p = (k, v)" by (cases p)
  show ?case
  proof (cases "f k v sd")
    case (Pair e sd')
    with assms[of k v sd] have t: "tables sd' = tables sd" by simp
    show ?thesis unfolding p using Pair t Cons.IH[of sd'] by (cases e) simp_all
  qed
qed

lemma step_images:
  "names_shared sd \<Longrightarrow> k \<notin> set (element_names sd) \<Longrightarrow>
      fst (images_setitem k v sd) = None \<and> names_shared (snd (images_setitem k v sd)) \<and>
      set (element_names (snd (images_setitem k v sd))) = insert k (set (element_names sd))"
  using insert_into_cases[of sd "IntoImages k v"] by auto

lemma step_labels:
  "names_shared sd \<Longrightarrow> k \<notin> set (element_names sd) \<Longrightarrow>
      fst (labels_setitem k v sd) = None \<and> names_shared (snd (labels_setitem k v sd)) \<and>
      set (element_names (snd (labels_setitem k v sd))) = insert k (set (element_names sd))"
  using insert_into_cases[of sd "IntoLabels k v"] by auto

lemma step_points:
  "names_shared sd \<Longrightarrow> k \<notin> set (element_names sd) \<Longrightarrow>
      fst (points_setitem k v sd) = None \<and> names_shared (snd (points_setitem k v sd)) \<and>
      set (element_names (snd (points_setitem k v sd))) = insert k (set (element_names sd))"
  using insert_into_cases[of sd "IntoPoints k v"] by auto

lemma step_shapes:
  "names_shared sd \<Longrightarrow> k \<notin> set (element_names sd) \<Longrightarrow>
      fst (shapes_setitem k v sd) = None \<and> names_shared (snd (shapes_setitem k v sd)) \<and>
      set (element_names (snd (shapes_setitem k v sd))) = insert k (set (element_names sd))"
  using insert_into_cases[of sd "IntoShapes k v"] by auto

lemma tables_unchanged:
  "tables (snd (images_setitem k v sd)) = tables sd"
  "tables (snd (labels_setitem k v sd)) = tables sd"
  "tables (snd (points_setitem k v sd)) = tables sd"
  "tables (snd (shapes_setitem k v sd)) = tables sd"
  by (simp_all add: setitem_defs)

text \<open>The four element loops of the constructor, on pairwise distinct names.\<close>

lemma init_elements_all:
  assumes d: "distinct (map fst imgs @ map fst lbls @ map fst pts @ map fst shps)"
  shows "\<exists>sd4. (\<forall>tbls. init tmv objs (Some imgs) (Some lbls) (Some pts) (Some shps) tbls =
            init_tables tmv objs
              (case tbls of None \<Rightarrow> [] | Some (SingleTable t) \<Rightarrow> [(''table'', t)]
               | Some (TablesDict d) \<Rightarrow> d) sd4) \<and>
          names_shared sd4 \<and> data (tables sd4) = [] \<and>
          set (element_names sd4) =
            set (map fst imgs @ map fst lbls @ map fst pts @ map fst shps)"
proof -
  have e0: "set (element_names empty_sdata) = {}" "data (tables empty_sdata) = []"
    by (simp_all add: element_names_eq empty_sdata_def)
  have di: "distinct (map fst imgs)" "distinct (map fst lbls)" "distinct (map fst pts)"
    "distinct (map fst shps)" using d by simp_all
  have x1: "set (map fst imgs) \<inter> set (element_names empty_sdata) = {}" using e0 by simp
  note r1 = setitems_ok[of images_setitem empty_sdata imgs, OF step_images names_shared_empty
      di(1) x1]
  obtain sd1 where s1: "setitems images_setitem imgs empty_sdata = (None, sd1)"
    using r1 by (cases "setitems images_setitem imgs empty_sdata") auto
  from r1 s1 e0 have n1: "names_shared sd1"
    and en1: "set (element_names sd1) = set (map fst imgs)" by auto
  have t1: "tables sd1 = tables empty_sdata"
    using setitems_tables_unchanged[of images_setitem imgs empty_sdata, OF tables_unchanged(1)] s1
    by simp
  have x2: "set (map fst lbls) \<inter> set (element_names sd1) = {}" using d en1 by auto
  note r2 = setitems_ok[of labels_setitem sd1 lbls, OF step_labels n1 di(2) x2]
  obtain sd2 where s2: "setitems labels_setitem lbls sd1 = (None, sd2)"
    using r2 by (cases "setitems labels_setitem lbls sd1") auto
  from r2 s2 en1 have n2: "names_shared sd2"
    and en2: "set (element_names sd2) = set (map fst imgs) \<union> set (map fst lbls)" by auto
  have t2: "tables sd2 = tables sd1"
    using setitems_tables_unchanged[of labels_setitem lbls sd1, OF tables_unchanged(2)] s2
    by simp
  have x3: "set (map fst shps) \<inter> set (element_names sd2) = {}" using d en2 by auto
  note r3 = setitems_ok[of shapes_setitem sd2 shps, OF step_shapes n2 di(4) x3]
  obtain sd3 where s3: "setitems shapes_setitem shps sd2 = (None, sd3)"
    using r3 by (cases "setitems shapes_setitem shps sd2") auto
  from r3 s3 en2 have n3: "names_shared sd3"
    and en3: "set (element_names sd3) =
                set (map fst imgs) \<union> set (map fst lbls) \<union> set (map fst shps)" by auto
  have t3: "tables sd3 = tables sd2"
    using setitems_tables_unchanged[of shapes_setitem shps sd2, OF tables_unchanged(4)] s3
    by simp
  have x4: "set (map fst pts) \<inter> set (element_names sd3) = {}" using d en3 by auto
  note r4 = setitems_ok[of points_setitem sd3 pts, OF step_points n3 di(3) x4]
  obtain sd4 where s4: "setitems points_setitem pts sd3 = (None, sd4)"
    using r4 by (cases "setitems points_setitem pts sd3") auto
  from r4 s4 en3 have n4: "names_shared sd4"
    and en4: "set (element_names sd4) =
                set (map fst imgs) \<union> set (map fst lbls) \<union> set (map fst shps) \<union> set (map fst pts)"
    by auto
  have t4: "tables sd4 = tables sd3"
    using setitems_tables_unchanged[of points_setitem pts sd3, OF tables_unchanged(3)] s4
    by simp
  have "\<forall>tbls. init tmv objs (Some imgs) (Some lbls) (Some pts) (Some shps) tbls =
            init_tables tmv objs
              (case tbls of None \<Rightarrow> [] | Some (SingleTable t) \<Rightarrow> [(''table'', t)]
               | Some (TablesDict d) \<Rightarrow> d) sd4"
    using d by (simp add: init_def dict_items_def s1 s2 s3 s4 Let_def)
  moreover have "data (tables sd4) = []" using t1 t2 t3 t4 e0 by simp
  moreover have "set (element_names sd4) =
            set (map fst imgs @ map fst lbls @ map fst pts @ map fst shps)"
    using en4 by auto
  ultimately show ?thesis using n4 by blast
qed

text \<open>
  C9. For every table that passes the schema validation and carries annotation metadata.
  When \<open>validate_table_in_spatialdata\<close> does not raise, it has warned once for every
  annotated region that is absent from the container, in their order. When it raises, it
  does so at an annotated region that is present in the container, having warned for the
  absent regions before it; if that region is a spatial element and the table has its
  instance-key column, the error is the dtype mismatch, and the two dtypes differ with one
  of them \<open>str\<close>. When every annotated region is absent or is a spatial element that
  passes that comparison, the validation does not raise. Constructing a container from
  elements with pairwise distinct names and such a table, under a further name, succeeds
  with one warning per region that is not among the elements, and holds the table.
\<close>

theorem referential_mismatch_not_fatal:
  assumes "tmv t" and "uns_attrs t = Some a"
  shows "(snd (validate_table_in_spatialdata tmv objs sd t) = None \<longrightarrow>
            fst (validate_table_in_spatialdata tmv objs sd t) =
              map AnnotatingAbsent (filter (\<lambda>r. get sd r = None) (region_list (region a)))) \<and>
         (\<forall>err. snd (validate_table_in_spatialdata tmv objs sd t) = Some err \<longrightarrow>
            (\<exists>pre r post. region_list (region a) = pre @ r # post \<and> get sd r \<noteq> None \<and>
               fst (validate_table_in_spatialdata tmv objs sd t) =
                 map AnnotatingAbsent (filter (\<lambda>r. get sd r = None) pre) \<and>
               (\<forall>x td. get sd r = Some (ElementItem x) \<and>
                    obs_dtype t (instance_key a) = Inr td \<longrightarrow>
                  err = DtypeMismatchError \<and> dtype_of_payload (payload (objs x)) \<noteq> td \<and>
                  (dtype_of_payload (payload (objs x)) = DStr \<or> td = DStr)))) \<and>
         ((\<forall>r\<in>set (region_list (region a)). get sd r = None \<or>
               (\<exists>x td. get sd r = Some (ElementItem x) \<and>
                  obs_dtype t (instance_key a) = Inr td \<and>
                  \<not> (dtype_of_payload (payload (objs x)) \<noteq> td \<and>
                     (dtype_of_payload (payload (objs x)) = DStr \<or> td = DStr)))) \<longrightarrow>
            snd (validate_table_in_spatialdata tmv objs sd t) = None) \<and>
         (distinct (map fst imgs @ map fst lbls @ map fst pts @ map fst shps @ [n]) \<longrightarrow>
            (\<exists>sd4. init tmv objs (Some imgs) (Some lbls) (Some pts) (Some shps) None = ([], Inr sd4) \<and>
               (\<forall>r. get sd4 r = None \<longleftrightarrow> r \<notin> set (map fst imgs @ map fst lbls @ map fst pts @ map fst shps)) \<and>
               ((\<forall>r\<in>set (region_list (region a)). get sd4 r = None \<or>
                  (\<exists>x td. get sd4 r = Some (ElementItem x) \<and>
                  obs_dtype t (instance_key a) = Inr td \<and>
                  \<not> (dtype_of_payload (payload (objs x)) \<noteq> td \<and>
                     (dtype_of_payload (payload (objs x)) = DStr \<or> td = DStr)))) \<longrightarrow>
                (\<exists>sd'. init tmv objs (Some imgs) (Some lbls) (Some pts) (Some shps)
                          (Some (TablesDict [(n, t)])) =
                        (map AnnotatingAbsent
                           (filter (\<lambda>r. get sd4 r = None) (region_list (region a))), Inr sd') \<and>
                      data (tables sd') = [(n, t)]))))"
proof -
  have V: "\<And>sd. validate_table_in_spatialdata tmv objs sd t =
             validate_regions objs sd t (instance_key a) (region_list (region a))"
    using assms by (simp add: validate_table_in_spatialdata_def)
  have p1: "(snd (validate_table_in_spatialdata tmv objs sd t) = None \<longrightarrow>
            fst (validate_table_in_spatialdata tmv objs sd t) =
              map AnnotatingAbsent (filter (\<lambda>r. get sd r = None) (region_list (region a))))"
    unfolding V by (rule impI) (rule validate_regions_warnings)
  have p2: "(\<forall>err. snd (validate_table_in_spatialdata tmv objs sd t) = Some err \<longrightarrow>
            (\<exists>pre r post. region_list (region a) = pre @ r # post \<and> get sd r \<noteq> None \<and>
               fst (validate_table_in_spatialdata tmv objs sd t) =
                 map AnnotatingAbsent (filter (\<lambda>r. get sd r = None) pre) \<and>
               (\<forall>x td. get sd r = Some (ElementItem x) \<and>
                    obs_dtype t (instance_key a) = Inr td \<longrightarrow>
                  err = DtypeMismatchError \<and> dtype_of_payload (payload (objs x)) \<noteq> td \<and>
                  (dtype_of_payload (payload (objs x)) = DStr \<or> td = DStr))))"
  proof (intro allI impI)
    fix err assume "snd (validate_table_in_spatialdata tmv objs sd t) = Some err"
    then have "validate_regions objs sd t (instance_key a) (region_list (region a)) =
        (fst (validate_regions objs sd t (instance_key a) (region_list (region a))), Some err)"
      unfolding V by (simp add: prod_eq_iff)
    from validate_regions_error[OF this]
    show "\<exists>pre r post. region_list (region a) = pre @ r # post \<and> get sd r \<noteq> None \<and>
               fst (validate_table_in_spatialdata tmv objs sd t) =
                 map AnnotatingAbsent (filter (\<lambda>r. get sd r = None) pre) \<and>
               (\<forall>x td. get sd r = Some (ElementItem x) \<and>
                    obs_dtype t (instance_key a) = Inr td \<longrightarrow>
                  err = DtypeMismatchError \<and> dtype_of_payload (payload (objs x)) \<noteq> td \<and>
                  (dtype_of_payload (payload (objs x)) = DStr \<or> td = DStr))"
      unfolding V .
  qed
  have p3: "((\<forall>r\<in>set (region_list (region a)). get sd r = None \<or>
               (\<exists>x td. get sd r = Some (ElementItem x) \<and>
                  obs_dtype t (instance_key a) = Inr td \<and>
                  \<not> (dtype_of_payload (payload (objs x)) \<noteq> td \<and>
                     (dtype_of_payload (payload (objs x)) = DStr \<or> td = DStr)))) \<longrightarrow>
            snd (validate_table_in_spatialdata tmv objs sd t) = None)"
    unfolding V by (rule impI) (rule validate_regions_pass)
  have p4: "(distinct (map fst imgs @ map fst lbls @ map fst pts @ map fst shps @ [n]) \<longrightarrow>
            (\<exists>sd4. init tmv objs (Some imgs) (Some lbls) (Some pts) (Some shps) None = ([], Inr sd4) \<and>
               (\<forall>r. get sd4 r = None \<longleftrightarrow> r \<notin> set (map fst imgs @ map fst lbls @ map fst pts @ map fst shps)) \<and>
               ((\<forall>r\<in>set (region_list (region a)). get sd4 r = None \<or>
                  (\<exists>x td. get sd4 r = Some (ElementItem x) \<and>
                  obs_dtype t (instance_key a) = Inr td \<and>
                  \<not> (dtype_of_payload (payload (objs x)) \<noteq> td \<and>
                     (dtype_of_payload (payload (objs x)) = DStr \<or> td = DStr)))) \<longrightarrow>
                (\<exists>sd'. init tmv objs (Some imgs) (Some lbls) (Some pts) (Some shps)
                          (Some (TablesDict [(n, t)])) =
                        (map AnnotatingAbsent
                           (filter (\<lambda>r. get sd4 r = None) (region_list (region a))), Inr sd') \<and>
                      data (tables sd') = [(n, t)]))))"
  proof
    assume h: "distinct (map fst imgs @ map fst lbls @ map fst pts @ map fst shps @ [n])"
    then have d: "distinct (map fst imgs @ map fst lbls @ map fst pts @ map fst shps)" by simp
    from init_elements_all[OF d, of tmv objs]
    obtain sd4 where i: "\<forall>tbls. init tmv objs (Some imgs) (Some lbls) (Some pts) (Some shps) tbls =
            init_tables tmv objs
              (case tbls of None \<Rightarrow> [] | Some (SingleTable t) \<Rightarrow> [(''table'', t)]
               | Some (TablesDict d) \<Rightarrow> d) sd4"
      and ns: "names_shared sd4" and tb: "data (tables sd4) = []"
      and en: "set (element_names sd4) = set (map fst imgs @ map fst lbls @ map fst pts @ map fst shps)"
      by blast
    from spec[OF i, of None]
    have i0: "init tmv objs (Some imgs) (Some lbls) (Some pts) (Some shps) None = ([], Inr sd4)"
      by simp
    from spec[OF i, of "Some (TablesDict [(n, t)])"]
    have i1: "init tmv objs (Some imgs) (Some lbls) (Some pts) (Some shps)
                (Some (TablesDict [(n, t)])) = init_tables tmv objs [(n, t)] sd4"
      by simp
    have g: "\<forall>r. get sd4 r = None \<longleftrightarrow> r \<notin> set (map fst imgs @ map fst lbls @ map fst pts @ map fst shps)"
      using en by (simp only: get_None_iff) simp
    have acc: "(\<forall>r\<in>set (region_list (region a)). get sd4 r = None \<or>
                  (\<exists>x td. get sd4 r = Some (ElementItem x) \<and>
                  obs_dtype t (instance_key a) = Inr td \<and>
                  \<not> (dtype_of_payload (payload (objs x)) \<noteq> td \<and>
                     (dtype_of_payload (payload (objs x)) = DStr \<or> td = DStr)))) \<longrightarrow>
                (\<exists>sd'. init tmv objs (Some imgs) (Some lbls) (Some pts) (Some shps)
                          (Some (TablesDict [(n, t)])) =
                        (map AnnotatingAbsent
                           (filter (\<lambda>r. get sd4 r = None) (region_list (region a))), Inr sd') \<and>
                      data (tables sd') = [(n, t)])"
    proof
      assume pass: "\<forall>r\<in>set (region_list (region a)). get sd4 r = None \<or>
                  (\<exists>x td. get sd4 r = Some (ElementItem x) \<and>
                  obs_dtype t (instance_key a) = Inr td \<and>
                  \<not> (dtype_of_payload (payload (objs x)) \<noteq> td \<and>
                     (dtype_of_payload (payload (objs x)) = DStr \<or> td = DStr)))"
      from validate_regions_pass[OF pass]
      have e: "snd (validate_regions objs sd4 t (instance_key a) (region_list (region a))) = None" .
      from validate_regions_warnings[OF e]
      have w: "fst (validate_regions objs sd4 t (instance_key a) (region_list (region a))) =
                 map AnnotatingAbsent (filter (\<lambda>r. get sd4 r = None) (region_list (region a)))" .
      have v: "validate_table_in_spatialdata tmv objs sd4 t =
                 (map AnnotatingAbsent (filter (\<lambda>r. get sd4 r = None) (region_list (region a))),
                  None)"
        unfolding V using e w by (simp add: prod_eq_iff)
      have nn: "n \<notin> set (element_names sd4)" using h en by auto
      from insert_into_cases[OF ns, of "IntoTables n t"] nn
      obtain sd' where ins: "tables_setitem n t sd4 = (None, sd')"
        by (cases "tables_setitem n t sd4") auto
      then have "data (tables sd') = [(n, t)]"
        using tb by (auto simp: setitem_defs split: if_splits)
      with i1 v ins
      show "\<exists>sd'. init tmv objs (Some imgs) (Some lbls) (Some pts) (Some shps)
                          (Some (TablesDict [(n, t)])) =
                        (map AnnotatingAbsent
                           (filter (\<lambda>r. get sd4 r = None) (region_list (region a))), Inr sd') \<and>
                      data (tables sd') = [(n, t)]"
        by simp
    qed
    from i0 g acc
    show "\<exists>sd4. init tmv objs (Some imgs) (Some lbls) (Some pts) (Some shps) None = ([], Inr sd4) \<and>
               (\<forall>r. get sd4 r = None \<longleftrightarrow> r \<notin> set (map fst imgs @ map fst lbls @ map fst pts @ map fst shps)) \<and>
               ((\<forall>r\<in>set (region_list (region a)). get sd4 r = None \<or>
                  (\<exists>x td. get sd4 r = Some (ElementItem x) \<and>
                  obs_dtype t (instance_key a) = Inr td \<and>
                  \<not> (dtype_of_payload (payload (objs x)) \<noteq> td \<and>
                     (dtype_of_payload (payload (objs x)) = DStr \<or> td = DStr)))) \<longrightarrow>
                (\<exists>sd'. init tmv objs (Some imgs) (Some lbls) (Some pts) (Some shps)
                          (Some (TablesDict [(n, t)])) =
                        (map AnnotatingAbsent
                           (filter (\<lambda>r. get sd4 r = None) (region_list (region a))), Inr sd') \<and>
                      data (tables sd') = [(n, t)]))"
      by (intro exI[of _ sd4] conjI)
  qed
  from p1 p2 p3 p4 show ?thesis by (intro conjI)
qed

theorem referential_mismatch_not_fatal_witness:
  "validate_table_in_spatialdata (\<lambda>_. True)
          (\<lambda>_. \<lparr>payload = SpatialImage (DInt 32), transformations = [(''global'', Identity)],
                 backing_files = []\<rparr>)
          (snd (labels_setitem ''cells'' 0 empty_sdata))
          \<lparr>obs_columns = [(''region'', DObject), (''instance_id'', DInt 64)],
           obs_rows = [\<lambda>c. if c = ''region'' then ''nuclei'' else ''1'',
                       \<lambda>c. if c = ''region'' then ''cells'' else ''2''],
           uns_attrs = Some \<lparr>region = RegionList [''nuclei'', ''cells''], region_key = ''region'',
                              instance_key = ''instance_id''\<rparr>\<rparr> =
     ([AnnotatingAbsent ''nuclei''], None) \<and>
   (\<exists>sd'. init (\<lambda>_. True)
          (\<lambda>_. \<lparr>payload = SpatialImage (DInt 32), transformations = [(''global'', Identity)],
                 backing_files = []\<rparr>)
          (Some []) (Some [(''cells'', 0)]) (Some []) (Some [])
          (Some (TablesDict [(''table'',
            \<lparr>obs_columns = [(''region'', DObject), (''instance_id'', DInt 64)],
           obs_rows = [\<lambda>c. if c = ''region'' then ''nuclei'' else ''1'',
                       \<lambda>c. if c = ''region'' then ''cells'' else ''2''],
           uns_attrs = Some \<lparr>region = RegionList [''nuclei'', ''cells''], region_key = ''region'',
                              instance_key = ''instance_id''\<rparr>\<rparr>)])) =
       ([AnnotatingAbsent ''nuclei''], Inr sd') \<and>
     map fst (data (tables sd')) = [''table''])"
proof -
  let ?objs = "\<lambda>_::addr. \<lparr>payload = SpatialImage (DInt 32),
                 transformations = [(''global'', Identity)], backing_files = []\<rparr>"
  let ?sd = "snd (labels_setitem ''cells'' 0 empty_sdata)"
  let ?a = "\<lparr>region = RegionList [''nuclei'', ''cells''], region_key = ''region'',
             instance_key = ''instance_id''\<rparr>"
  let ?t = "\<lparr>obs_columns = [(''region'', DObject), (''instance_id'', DInt 64)],
           obs_rows = [\<lambda>c. if c = ''region'' then ''nuclei'' else ''1'',
                       \<lambda>c. if c = ''region'' then ''cells'' else ''2''],
           uns_attrs = Some ?a\<rparr>"
  have a2: "uns_attrs ?t = Some ?a" by simp
  note th = referential_mismatch_not_fatal[where tmv = "\<lambda>_. True" and objs = ?objs
      and sd = ?sd and t = ?t and a = ?a and imgs = "[]" and lbls = "[(''cells'', 0)]"
      and pts = "[]" and shps = "[]" and n = "''table''", OF TrueI a2]
  have g1: "get ?sd ''nuclei'' = None" and g2: "get ?sd ''cells'' = Some (ElementItem 0)"
    by (simp_all add: lookup_eval)
  have od: "obs_dtype ?t ''instance_id'' = Inr (DInt 64)" by (simp add: obs_dtype_def)
  have rl: "region_list (region ?a) = [''nuclei'', ''cells'']" by (simp add: region_list_def)
  have pass: "\<forall>r\<in>set (region_list (region ?a)). get ?sd r = None \<or>
       (\<exists>x td. get ?sd r = Some (ElementItem x) \<and> obs_dtype ?t (instance_key ?a) = Inr td \<and>
          \<not> (dtype_of_payload (payload (?objs x)) \<noteq> td \<and>
             (dtype_of_payload (payload (?objs x)) = DStr \<or> td = DStr)))"
    unfolding rl using g1 g2 od by simp
  have f: "filter (\<lambda>r. get ?sd r = None) (region_list (region ?a)) = [''nuclei'']"
    unfolding rl using g1 g2 by simp
  from th[THEN conjunct2, THEN conjunct2, THEN conjunct1, THEN mp, OF pass]
  have e: "snd (validate_table_in_spatialdata (\<lambda>_. True) ?objs ?sd ?t) = None" .
  from th[THEN conjunct1, THEN mp, OF e]
  have w: "fst (validate_table_in_spatialdata (\<lambda>_. True) ?objs ?sd ?t) =
             [AnnotatingAbsent ''nuclei'']"
    unfolding f by simp
  have c1: "validate_table_in_spatialdata (\<lambda>_. True) ?objs ?sd ?t =
              ([AnnotatingAbsent ''nuclei''], None)"
    using e w by (simp only: prod_eq_iff fst_conv snd_conv)
  have d: "distinct (map fst [] @ map fst [(''cells'', 0::addr)] @ map fst [] @ map fst [] @
             [''table''])" by simp
  from th[THEN conjunct2, THEN conjunct2, THEN conjunct2, THEN mp, OF d]
  obtain sd4 where i0: "init (\<lambda>_. True) ?objs (Some []) (Some [(''cells'', 0)]) (Some [])
                          (Some []) None = ([], Inr sd4)"
    and acc: "(\<forall>r\<in>set (region_list (region ?a)). get sd4 r = None \<or>
       (\<exists>x td. get sd4 r = Some (ElementItem x) \<and> obs_dtype ?t (instance_key ?a) = Inr td \<and>
          \<not> (dtype_of_payload (payload (?objs x)) \<noteq> td \<and>
             (dtype_of_payload (payload (?objs x)) = DStr \<or> td = DStr)))) \<longrightarrow>
       (\<exists>sd'. init (\<lambda>_. True) ?objs (Some []) (Some [(''cells'', 0)]) (Some []) (Some [])
                 (Some (TablesDict [(''table'', ?t)])) =
               (map AnnotatingAbsent (filter (\<lambda>r. get sd4 r = None) (region_list (region ?a))),
                Inr sd') \<and>
             data (tables sd') = [(''table'', ?t)])"
    by blast
  have "init (\<lambda>_. True) ?objs (Some []) (Some [(''cells'', 0)]) (Some []) (Some []) None =
          ([], Inr ?sd)"
    by (simp add: init_def dict_items_def labels_setitem_def elements_setitem_def empty_sdata_def
        Let_def)
  with i0 have s4: "sd4 = ?sd" by simp
  from acc[unfolded s4, THEN mp, OF pass]
  obtain sd' where "init (\<lambda>_. True) ?objs (Some []) (Some [(''cells'', 0)]) (Some []) (Some [])
                 (Some (TablesDict [(''table'', ?t)])) =
               (map AnnotatingAbsent (filter (\<lambda>r. get ?sd r = None) (region_list (region ?a))),
                Inr sd')"
     and "data (tables sd') = [(''table'', ?t)]"
    by blast
  then have c2: "\<exists>sd'. init (\<lambda>_. True) ?objs (Some []) (Some [(''cells'', 0)]) (Some [])
                 (Some []) (Some (TablesDict [(''table'', ?t)])) =
               ([AnnotatingAbsent ''nuclei''], Inr sd') \<and>
             map fst (data (tables sd')) = [''table'']"
    unfolding f by simp
  from c1 c2 show ?thesis by (rule conjI)
qed

text \<open>
  Two tables that name the absent region \<open>nuclei\<close> and whose validation raises without a
  dtype comparison: the first is rejected by the schema validation, before any region is
  looked at; the second also names \<open>other\<close>, a table of the container, which has no
  \<open>index\<close> to read a dtype from.
\<close>

theorem referential_mismatch_not_fatal_counterexample:
  "validate_table_in_spatialdata (\<lambda>_. False)
          (\<lambda>_. \<lparr>payload = SpatialImage (DInt 32), transformations = [(''global'', Identity)],
                 backing_files = []\<rparr>)
          (snd (labels_setitem ''cells'' 0 empty_sdata))
          \<lparr>obs_columns = [(''region'', DObject), (''instance_id'', DInt 64)],
           obs_rows = [\<lambda>c. if c = ''region'' then ''nuclei'' else ''1''],
           uns_attrs = Some \<lparr>region = RegionStr ''nuclei'', region_key = ''region'',
                              instance_key = ''instance_id''\<rparr>\<rparr> =
     ([], Some StructuralValidationError) \<and>
   validate_table_in_spatialdata (\<lambda>_. True)
          (\<lambda>_. \<lparr>payload = SpatialImage (DInt 32), transformations = [(''global'', Identity)],
                 backing_files = []\<rparr>)
          (snd (tables_setitem ''other'' \<lparr>obs_columns = [], obs_rows = [], uns_attrs = None\<rparr>
             (snd (labels_setitem ''cells'' 0 empty_sdata))))
          \<lparr>obs_columns = [(''region'', DObject), (''instance_id'', DInt 64)],
           obs_rows = [\<lambda>c. if c = ''region'' then ''nuclei'' else ''1'',
                       \<lambda>c. if c = ''region'' then ''other'' else ''2''],
           uns_attrs = Some \<lparr>region = RegionList [''nuclei'', ''other''], region_key = ''region'',
                              instance_key = ''instance_id''\<rparr>\<rparr> =
     ([AnnotatingAbsent ''nuclei''], Some AttributeError)"
  by (simp add: validate_table_in_spatialdata_def lookup_eval elements_setitem_def)

section \<open>Binding a table to its regions\<close>

text \<open>
  C6. Binding the table \<open>t\<close> to the region set \<open>{A, B}\<close>, both shapes of the container,
  where the region-key column holds exactly the values \<open>A\<close> and \<open>B\<close>. The test
  \<open>region not in element_names\<close> of \<open>set_table_annotates_spatialelement\<close> hashes the
  region, so the call raises \<open>TypeError\<close> for the list (or \<open>pandas.Series\<close>) of names and
  leaves the container as it was, where the binding was to succeed.
\<close>

theorem region_set_binding_raises:
  "set (column_values
          \<lparr>obs_columns = [(''region'', DObject), (''instance_id'', DInt 64)],
           obs_rows = [\<lambda>c. if c = ''region'' then ''A'' else ''1'',
                       \<lambda>c. if c = ''region'' then ''B'' else ''2''],
           uns_attrs = None\<rparr> ''region'') \<subseteq> set (region_list (RegionList [''A'', ''B''])) \<and>
   set_table_annotates_spatialelement
     (insert_all
        [IntoShapes ''A'' 0, IntoShapes ''B'' 1,
         IntoTables ''t''
           \<lparr>obs_columns = [(''region'', DObject), (''instance_id'', DInt 64)],
            obs_rows = [\<lambda>c. if c = ''region'' then ''A'' else ''1'',
                        \<lambda>c. if c = ''region'' then ''B'' else ''2''],
            uns_attrs = None\<rparr>]
        empty_sdata)
     ''t'' (RegionList [''A'', ''B'']) (Some ''region'') (Some ''instance_id'') =
   (Some UnhashableTypeError,
    insert_all
        [IntoShapes ''A'' 0, IntoShapes ''B'' 1,
         IntoTables ''t''
           \<lparr>obs_columns = [(''region'', DObject), (''instance_id'', DInt 64)],
            obs_rows = [\<lambda>c. if c = ''region'' then ''A'' else ''1'',
                        \<lambda>c. if c = ''region'' then ''B'' else ''2''],
            uns_attrs = None\<rparr>]
        empty_sdata)"
  by (simp add: column_values_def region_list_def set_table_annotates_spatialelement_def
      setitem_defs elements_setitem_def empty_sdata_def)

section \<open>Writing and reading a store\<close>

lemma backed_contained:
  assumes "(ty, k, ElementItem x) \<in> set (gen_elements sd)"
    and "f \<in> set (backing_files (objs x))" and "prefix p f"
  shows "list_ex (\<lambda>b. b) (backed_elements_contained_in_path objs sd p)"
proof -
  have "list_ex (\<lambda>f. is_subfolder p f) (backing_files (objs x))"
    using assms(2,3) by (auto simp: list_ex_iff is_subfolder_def)
  then have "(\<lambda>(ty, k, it).
            case it of
              ElementItem a \<Rightarrow> list_ex (\<lambda>f. is_subfolder p f) (backing_files (objs a))
            | TableItem t \<Rightarrow> False) (ty, k, ElementItem x)" by simp
  with assms(1) have "True \<in> set (backed_elements_contained_in_path objs sd p)"
    unfolding backed_elements_contained_in_path_def set_map
    by (intro image_eqI[where x = "(ty, k, ElementItem x)"]) simp_all
  then show ?thesis by (auto simp: list_ex_iff)
qed

text \<open>
  C8. For every container that holds an element with a backing file, and every target
  path that exists, is a Zarr store and is an ancestor of that backing file,
  \<open>write(path, overwrite=True)\<close> raises the would-orphan-backing-data error, and the disk
  and the container are as before the call: the error precedes the first write.
\<close>

theorem guard_rejects_overwrite:
  assumes "path_exists d p" and "is_zarr d p"
    and "(ty, k, ElementItem x) \<in> set (gen_elements sd)"
    and "f \<in> set (backing_files (objs x))" and "prefix p f"
  shows "write_zarr objs d sd p True consolidate_metadata = (Some WouldOrphanBackingData, d, sd)"
  using assms(1,2) backed_contained[where objs = objs and x = x, OF assms(3,4,5)]
  by (simp add: write_zarr_def validate_can_safely_write_to_path_def)

theorem guard_rejects_overwrite_witness:
  "write_zarr
     (\<lambda>_. \<lparr>payload = DaskDataFrame (DInt 64), transformations = [(''global'', Identity)],
            backing_files = [[''data.zarr'', ''points'', ''p'', ''points.parquet'']]\<rparr>)
     [([''data.zarr''], ZarrGroup), ([''data.zarr'', ''points''], ZarrGroup),
      ([''data.zarr'', ''points'', ''p''], ZarrGroup)]
     ((snd (points_setitem ''p'' 0 empty_sdata))\<lparr>sd_path := Some [''data.zarr'']\<rparr>)
     [''data.zarr''] True True =
   (Some WouldOrphanBackingData,
     [([''data.zarr''], ZarrGroup), ([''data.zarr'', ''points''], ZarrGroup),
      ([''data.zarr'', ''points'', ''p''], ZarrGroup)],
     (snd (points_setitem ''p'' 0 empty_sdata))\<lparr>sd_path := Some [''data.zarr'']\<rparr>)"
  using guard_rejects_overwrite[where
      objs = "\<lambda>_. \<lparr>payload = DaskDataFrame (DInt 64), transformations = [(''global'', Identity)],
            backing_files = [[''data.zarr'', ''points'', ''p'', ''points.parquet'']]\<rparr>"
      and d = "[([''data.zarr''], ZarrGroup), ([''data.zarr'', ''points''], ZarrGroup),
      ([''data.zarr'', ''points'', ''p''], ZarrGroup)]"
      and sd = "(snd (points_setitem ''p'' 0 empty_sdata))\<lparr>sd_path := Some [''data.zarr'']\<rparr>"
      and p = "[''data.zarr'']" and ty = "''points''" and k = "''p''" and x = 0
      and f = "[''data.zarr'', ''points'', ''p'', ''points.parquet'']"
      and consolidate_metadata = True]
  by (simp add: path_exists_def is_zarr_def gen_elements_def gen_spatial_elements_def
      setitem_defs empty_sdata_def)


text \<open>
  C1. A container with the image \<open>img\<close> and the table \<open>t\<close> is written to a path that
  does not exist, and read back. The write succeeds and stores the table in the group
  \<open>tables\<close>; \<open>read_zarr\<close> succeeds, finds the image, and returns a container without
  tables, since it looks for the group \<open>table\<close>.
\<close>

theorem round_trip_loses_tables:
  "(case write_zarr
     (\<lambda>_. \<lparr>payload = SpatialImage (DInt 8), transformations = [(''global'', Identity)],
            backing_files = []\<rparr>)
     []
     (snd (tables_setitem ''t'' \<lparr>obs_columns = [], obs_rows = [], uns_attrs = None\<rparr>
        (snd (images_setitem ''img'' 0 empty_sdata))))
     [''data.zarr''] False True of
     (e, d, sd) \<Rightarrow>
       e = None \<and>
       map fst (group_children d [''data.zarr'', ''tables'']) = [''t''] \<and>
       (case read_zarr (\<lambda>_. True)
               (\<lambda>_. \<lparr>payload = SpatialImage (DInt 8),
                      transformations = [(''global'', Identity)], backing_files = []\<rparr>)
               1 d [''data.zarr''] None of
          (ws, Inl e') \<Rightarrow> False
        | (ws, Inr (objs', n, s)) \<Rightarrow>
            map fst (data (images s)) = [''img''] \<and> map fst (data (tables s)) = []))"
  by code_simp

section \<open>Subsetting\<close>

lemma update_set_subset: "set (AList.update k v al) \<subseteq> insert (k, v) (set al)"
  by (induction al) auto

lemma names_in_Nil: "names_in [] = {}"
  by (simp add: names_in_def)

lemma names_in_Cons: "names_in ((ty, d) # ed) = fst ` set d \<union> names_in ed"
  by (simp add: names_in_def)

lemma names_in_mem: "(ty, d) \<in> set ed \<Longrightarrow> fst ` set d \<subseteq> names_in ed"
proof (induction ed)
  case Nil
  then show ?case by simp
next
  case (Cons p ed)
  obtain ty' d' where p: "p = (ty', d')" by (cases p)
  from Cons.prems have "(ty, d) = p \<or> (ty, d) \<in> set ed" by simp
  then show ?case
  proof
    assume "(ty, d) = p"
    then show ?thesis unfolding p names_in_Cons by blast
  next
    assume "(ty, d) \<in> set ed"
    from Cons.IH[OF this] show ?thesis unfolding p names_in_Cons by blast
  qed
qed

lemma names_in_update:
  "names_in (AList.update ty d ed) \<subseteq> names_in ed \<union> fst ` set d"
proof (induction ed)
  case Nil
  then show ?case by (simp add: names_in_Cons names_in_Nil)
next
  case (Cons p ed)
  obtain ty' d' where p: "p = (ty', d')" by (cases p)
  show ?case
  proof (cases "ty' = ty")
    case True
    then show ?thesis unfolding p by (simp add: names_in_Cons) blast
  next
    case False
    then have "names_in (AList.update ty d (p # ed)) =
                 fst ` set d' \<union> names_in (AList.update ty d ed)"
      unfolding p by (simp add: names_in_Cons)
    with Cons.IH show ?thesis unfolding p names_in_Cons by blast
  qed
qed

lemma names_in_lookup:
  "fst ` set (case map_of ed ty of None \<Rightarrow> [] | Some d \<Rightarrow> d) \<subseteq> names_in ed"
proof (cases "map_of ed ty")
  case None
  then show ?thesis by simp
next
  case (Some d)
  then have "(ty, d) \<in> set ed" by (rule map_of_SomeD)
  from names_in_mem[OF this] show ?thesis using Some by simp
qed

lemma set_chain1: "A \<subseteq> B \<union> C \<Longrightarrow> C = {k} \<union> D \<Longrightarrow> D \<subseteq> B \<Longrightarrow> k \<in> N \<Longrightarrow> A \<subseteq> B \<union> N"
  by blast

lemma set_chain2: "A \<subseteq> B \<union> N \<Longrightarrow> B \<subseteq> C \<union> N \<Longrightarrow> A \<subseteq> C \<union> N"
  by blast

lemma subset_loop_props:
  "subset_loop names es (ed, keep) = (ed', keep') \<Longrightarrow>
     names_in ed' \<subseteq> names_in ed \<union> set names \<and> keep' \<subseteq> keep \<union> set names"
proof (induction es arbitrary: ed keep)
  case Nil
  then show ?case by simp
next
  case (Cons e es)
  obtain ty k it where e: "e = (ty, k, it)" by (cases e)
  show ?case
  proof (cases "k \<in> set names")
    case False
    with Cons.prems e have "subset_loop names es (ed, keep) = (ed', keep')" by simp
    from Cons.IH[OF this] show ?thesis .
  next
    case True
    show ?thesis
    proof (cases it)
      case (TableItem t)
      with Cons.prems e True have "subset_loop names es (ed, insert k keep) = (ed', keep')"
        by simp
      from Cons.IH[OF this] True show ?thesis by auto
    next
      case (ElementItem a)
      define dd where "dd = (case map_of ed ty of None \<Rightarrow> [] | Some d \<Rightarrow> d)"
      define ed1 where "ed1 = AList.update ty (AList.update k a dd) ed"
      from Cons.prems e True ElementItem
      have "subset_loop names es (ed1, keep) = (ed', keep')" by (simp add: ed1_def dd_def)
      note ih = Cons.IH[OF this]
      have a1: "names_in ed' \<subseteq> names_in ed1 \<union> set names" by (rule ih[THEN conjunct1])
      have a2: "keep' \<subseteq> keep \<union> set names" by (rule ih[THEN conjunct2])
      have b1: "names_in ed1 \<subseteq> names_in ed \<union> fst ` set (AList.update k a dd)"
        unfolding ed1_def by (rule names_in_update)
      have b2: "fst ` set (AList.update k a dd) = {k} \<union> fst ` set dd"
        by (rule dom_update)
      have b3: "fst ` set dd \<subseteq> names_in ed"
        unfolding dd_def by (rule names_in_lookup)
      have "names_in ed1 \<subseteq> names_in ed \<union> set names"
        by (rule set_chain1[OF b1 b2 b3 True])
      from set_chain2[OF a1 this] a2 show ?thesis by (rule conjI)
    qed
  qed
qed

lemma filter_table_by_elements_props:
  assumes "obs_rows (filter_table_by_elements t ed) \<noteq> []"
  shows "\<exists>a. uns_attrs (filter_table_by_elements t ed) = Some a \<and>
           set (column_values (filter_table_by_elements t ed) (region_key a)) \<subseteq> names_in ed"
proof (cases "uns_attrs t")
  case None
  with assms show ?thesis
    by (simp add: filter_table_by_elements_def filter_table_by_element_names_def)
next
  case (Some a)
  then show ?thesis
    by (auto simp: filter_table_by_elements_def filter_table_by_element_names_def
        column_values_def names_in_def simp del: set_concat)
qed

lemma kept_as_mono: "kept_as keep orph ed ts nt \<Longrightarrow> kept_as keep orph ed (x # ts) nt"
  by (auto simp: kept_as_def)

lemma update_kept:
  assumes "kept_as keep orph ed ts' (n, t')"
  shows "\<forall>nt\<in>set (AList.update n t' acc). nt \<in> set acc \<or> kept_as keep orph ed ts' nt"
proof
  fix nt assume "nt \<in> set (AList.update n t' acc)"
  with update_set_subset[of n t' acc] have "nt = (n, t') \<or> nt \<in> set acc" by blast
  with assms show "nt \<in> set acc \<or> kept_as keep orph ed ts' nt" by blast
qed

lemma kept_orphan:
  "orph \<Longrightarrow> uns_attrs t = None \<Longrightarrow> kept_as keep orph ed ((n, t) # ts) (n, t)"
  by (simp add: kept_as_def)

lemma kept_forced: "n \<in> keep \<Longrightarrow> kept_as keep orph ed ((n, t) # ts) (n, t)"
  by (simp add: kept_as_def)

lemma kept_filtered:
  "obs_rows (filter_table_by_elements t ed) \<noteq> [] \<Longrightarrow>
     kept_as keep orph ed ((n, t) # ts) (n, filter_table_by_elements t ed)"
  unfolding kept_as_def by (simp, blast)

lemma filter_loop_props:
  "filter_tables_loop keep (Some ByElements) orph names (Some ed) ts acc = Inr res \<Longrightarrow>
     \<forall>nt\<in>set res. nt \<in> set acc \<or> kept_as keep orph ed ts nt"
proof (induction ts arbitrary: acc)
  case Nil
  then show ?case by simp
next
  case (Cons p ts)
  obtain n t where p: "p = (n, t)" by (cases p)
  let ?t' = "filter_table_by_elements t ed"
  have step: "\<exists>acc'. filter_tables_loop keep (Some ByElements) orph names (Some ed) ts acc' = Inr res \<and>
                (\<forall>nt\<in>set acc'. nt \<in> set acc \<or> kept_as keep orph ed (p # ts) nt)"
  proof (cases "orph \<and> uns_attrs t = None")
    case True
    with Cons.prems p
    have "filter_tables_loop keep (Some ByElements) orph names (Some ed) ts
            (AList.update n t acc) = Inr res" by simp
    moreover have "\<forall>nt\<in>set (AList.update n t acc). nt \<in> set acc \<or> kept_as keep orph ed (p # ts) nt"
      unfolding p using update_kept[OF kept_orphan[where keep = keep and ed = ed and n = n and ts = ts]]
        True by blast
    ultimately show ?thesis by (intro exI[of _ "AList.update n t acc"]) blast
  next
    case False
    note nf = False
    show ?thesis
    proof (cases "n \<in> keep")
      case True
      with Cons.prems p nf
      have "filter_tables_loop keep (Some ByElements) orph names (Some ed) ts
              (AList.update n t acc) = Inr res" by auto
      moreover have "\<forall>nt\<in>set (AList.update n t acc). nt \<in> set acc \<or> kept_as keep orph ed (p # ts) nt"
        unfolding p using update_kept[OF kept_forced[where orph = orph and ed = ed and t = t and ts = ts]]
          True by blast
      ultimately show ?thesis by (intro exI[of _ "AList.update n t acc"]) blast
    next
      case False
      show ?thesis
      proof (cases "obs_rows ?t' = []")
        case True
        with Cons.prems p nf False
        have "filter_tables_loop keep (Some ByElements) orph names (Some ed) ts acc = Inr res"
          by (auto simp: Let_def)
        then show ?thesis by (intro exI[of _ acc]) blast
      next
        case ne: False
        with Cons.prems p nf False
        have "filter_tables_loop keep (Some ByElements) orph names (Some ed) ts
                (AList.update n ?t' acc) = Inr res"
          by (auto simp: Let_def)
        moreover have "\<forall>nt\<in>set (AList.update n ?t' acc).
                         nt \<in> set acc \<or> kept_as keep orph ed (p # ts) nt"
          unfolding p
          using update_kept[OF kept_filtered[where keep = keep and orph = orph and n = n and ts = ts]]
            ne by blast
        ultimately show ?thesis by (intro exI[of _ "AList.update n ?t' acc"]) blast
      qed
    qed
  qed
  then obtain acc' where both:
    "filter_tables_loop keep (Some ByElements) orph names (Some ed) ts acc' = Inr res \<and>
     (\<forall>nt\<in>set acc'. nt \<in> set acc \<or> kept_as keep orph ed (p # ts) nt)" by (rule exE)
  from both have
    r: "filter_tables_loop keep (Some ByElements) orph names (Some ed) ts acc' = Inr res"
    by (rule conjunct1)
  from both have a: "\<forall>nt\<in>set acc'. nt \<in> set acc \<or> kept_as keep orph ed (p # ts) nt"
    by (rule conjunct2)
  show ?case
  proof
    fix nt assume "nt \<in> set res"
    with Cons.IH[OF r] have "nt \<in> set acc' \<or> kept_as keep orph ed ts nt" by blast
    then show "nt \<in> set acc \<or> kept_as keep orph ed (p # ts) nt"
    proof
      assume "nt \<in> set acc'"
      with a show ?thesis by blast
    next
      assume "kept_as keep orph ed ts nt"
      then have "kept_as keep orph ed (p # ts) nt" by (rule kept_as_mono)
      then show ?thesis by simp
    qed
  qed
qed

lemma filter_loop_orphans:
  "filter_tables_loop keep (Some ByElements) True names (Some ed) ts acc = Inr res \<Longrightarrow>
     distinct (map fst ts) \<Longrightarrow>
     (\<forall>n. n \<notin> fst ` set ts \<longrightarrow> map_of res n = map_of acc n) \<and>
     (\<forall>(n, t)\<in>set ts. uns_attrs t = None \<longrightarrow> map_of res n = Some t)"
proof (induction ts arbitrary: acc)
  case Nil
  then show ?case by simp
next
  case (Cons p ts)
  obtain n t where p: "p = (n, t)" by (cases p)
  from Cons.prems p have nn: "n \<notin> fst ` set ts" and d: "distinct (map fst ts)" by auto
  let ?t' = "filter_table_by_elements t ed"
  have "\<exists>acc'. filter_tables_loop keep (Some ByElements) True names (Some ed) ts acc' = Inr res \<and>
          (\<forall>m. m \<noteq> n \<longrightarrow> map_of acc' m = map_of acc m) \<and>
          (uns_attrs t = None \<longrightarrow> map_of acc' n = Some t)"
  proof (cases "uns_attrs t = None")
    case True
    with Cons.prems p
    have "filter_tables_loop keep (Some ByElements) True names (Some ed) ts
            (AList.update n t acc) = Inr res" by simp
    moreover have "\<forall>m. m \<noteq> n \<longrightarrow> map_of (AList.update n t acc) m = map_of acc m"
      by (simp add: update_conv')
    moreover have "uns_attrs t = None \<longrightarrow> map_of (AList.update n t acc) n = Some t"
      by (simp add: update_conv')
    ultimately show ?thesis by (intro exI[of _ "AList.update n t acc"]) blast
  next
    case False
    note nf = False
    show ?thesis
    proof (cases "n \<in> keep")
      case True
      with Cons.prems p nf
      have "filter_tables_loop keep (Some ByElements) True names (Some ed) ts
              (AList.update n t acc) = Inr res" by auto
      moreover have "\<forall>m. m \<noteq> n \<longrightarrow> map_of (AList.update n t acc) m = map_of acc m"
        by (simp add: update_conv')
      moreover have "uns_attrs t = None \<longrightarrow> map_of (AList.update n t acc) n = Some t"
        by (simp add: update_conv')
      ultimately show ?thesis by (intro exI[of _ "AList.update n t acc"]) blast
    next
      case False
      show ?thesis
      proof (cases "obs_rows ?t' = []")
        case True
        with Cons.prems p nf False
        have "filter_tables_loop keep (Some ByElements) True names (Some ed) ts acc = Inr res"
          by (auto simp: Let_def)
        moreover have "uns_attrs t = None \<longrightarrow> map_of acc n = Some t" using nf by blast
        ultimately show ?thesis by (intro exI[of _ "acc"]) blast
      next
        case ne: False
        with Cons.prems p nf False
        have "filter_tables_loop keep (Some ByElements) True names (Some ed) ts
                (AList.update n ?t' acc) = Inr res"
          by (auto simp: Let_def)
        moreover have "\<forall>m. m \<noteq> n \<longrightarrow> map_of (AList.update n ?t' acc) m = map_of acc m"
          by (simp add: update_conv')
        moreover have "uns_attrs t = None \<longrightarrow> map_of (AList.update n ?t' acc) n = Some t"
          using nf by blast
        ultimately show ?thesis by (intro exI[of _ "AList.update n ?t' acc"]) blast
      qed
    qed
  qed
  then obtain acc' where all3:
    "filter_tables_loop keep (Some ByElements) True names (Some ed) ts acc' = Inr res \<and>
     (\<forall>m. m \<noteq> n \<longrightarrow> map_of acc' m = map_of acc m) \<and>
     (uns_attrs t = None \<longrightarrow> map_of acc' n = Some t)" by (rule exE)
  from all3 have
    r: "filter_tables_loop keep (Some ByElements) True names (Some ed) ts acc' = Inr res"
    by (rule conjunct1)
  from all3 have o: "\<forall>m. m \<noteq> n \<longrightarrow> map_of acc' m = map_of acc m"
    by (rule conjunct2[THEN conjunct1])
  from all3 have s: "uns_attrs t = None \<longrightarrow> map_of acc' n = Some t"
    by (rule conjunct2[THEN conjunct2])
  note ih = Cons.IH[OF r d]
  from ih have i1: "\<forall>m. m \<notin> fst ` set ts \<longrightarrow> map_of res m = map_of acc' m"
    by (rule conjunct1)
  from ih have i2: "\<forall>(m, u)\<in>set ts. uns_attrs u = None \<longrightarrow> map_of res m = Some u"
    by (rule conjunct2)
  show ?case
  proof (intro conjI allI impI ballI)
    fix m assume "m \<notin> fst ` set (p # ts)"
    then have "m \<noteq> n" "m \<notin> fst ` set ts" using p by auto
    with i1 o show "map_of res m = map_of acc m" by simp
  next
    fix x assume x: "x \<in> set (p # ts)"
    show "case x of (n, t) \<Rightarrow> uns_attrs t = None \<longrightarrow> map_of res n = Some t"
    proof (cases "x = p")
      case True
      from i1 nn have "map_of res n = map_of acc' n" by blast
      with s have "uns_attrs t = None \<longrightarrow> map_of res n = Some t" by simp
      then show ?thesis unfolding True p by simp
    next
      case False
      with x have "x \<in> set ts" by simp
      from bspec[OF i2 this] show ?thesis .
    qed
  qed
qed

lemma tables_setitem_data:
  "tables_setitem k v sd = (None, sd') \<Longrightarrow> data (tables sd') = data (tables sd) @ [(k, v)]"
  by (auto simp: tables_setitem_def elements_setitem_def split: if_splits)

lemma init_tables_data:
  "init_tables tmv objs kvs sd = (ws, Inr sd') \<Longrightarrow> data (tables sd') = data (tables sd) @ kvs"
proof (induction kvs arbitrary: sd ws)
  case Nil
  then show ?case by simp
next
  case (Cons p kvs)
  obtain k v where p: "p = (k, v)" by (cases p)
  obtain ws1 e1 where v: "validate_table_in_spatialdata tmv objs sd v = (ws1, e1)"
    by (cases "validate_table_in_spatialdata tmv objs sd v")
  obtain e2 sd2 where s: "tables_setitem k v sd = (e2, sd2)" by (cases "tables_setitem k v sd")
  obtain ws3 r3 where i: "init_tables tmv objs kvs sd2 = (ws3, r3)"
    by (cases "init_tables tmv objs kvs sd2")
  from Cons.prems have e1: "e1 = None" unfolding p by (cases e1) (simp_all add: v)
  from Cons.prems e1 have e2: "e2 = None" unfolding p by (cases e2) (simp_all add: v s)
  from Cons.prems e1 e2 have r3: "r3 = Inr sd'" unfolding p by (simp add: v s i)
  from Cons.IH[of sd2 ws3] i r3 have "data (tables sd') = data (tables sd2) @ kvs" by simp
  moreover from tables_setitem_data s e2 have "data (tables sd2) = data (tables sd) @ [(k, v)]"
    by blast
  ultimately show ?case unfolding p by simp
qed

lemma setitems_tables_same:
  assumes "\<And>k v sd. tables (snd (f k v sd)) = tables sd"
  shows "setitems f d sd = (e, sd') \<Longrightarrow> tables sd' = tables sd"
  using setitems_tables_unchanged[of f d sd, OF assms] by simp

lemma init_tables_of_dict:
  assumes "init tmv objs imgs lbls pts shps (Some (TablesDict tbls)) = (ws, Inr sd')"
  shows "data (tables sd') = tbls"
proof -
  obtain e1 sd1 where s1: "setitems images_setitem (dict_items imgs) empty_sdata = (e1, sd1)"
    by (cases "setitems images_setitem (dict_items imgs) empty_sdata")
  obtain e2 sd2 where s2: "setitems labels_setitem (dict_items lbls) sd1 = (e2, sd2)"
    by (cases "setitems labels_setitem (dict_items lbls) sd1")
  obtain e3 sd3 where s3: "setitems shapes_setitem (dict_items shps) sd2 = (e3, sd3)"
    by (cases "setitems shapes_setitem (dict_items shps) sd2")
  obtain e4 sd4 where s4: "setitems points_setitem (dict_items pts) sd3 = (e4, sd4)"
    by (cases "setitems points_setitem (dict_items pts) sd3")
  have t: "tables sd4 = tables empty_sdata"
    using setitems_tables_same[OF tables_unchanged(1) s1]
      setitems_tables_same[OF tables_unchanged(2) s2]
      setitems_tables_same[OF tables_unchanged(4) s3]
      setitems_tables_same[OF tables_unchanged(3) s4] by simp
  have "init_tables tmv objs tbls sd4 = (ws, Inr sd')"
    using assms
    by (simp add: init_def Let_def s1 s2 s3 s4 split: if_splits option.splits)
  from init_tables_data[OF this] t show ?thesis by (simp add: empty_sdata_def)
qed

text \<open>
  C7. When \<open>subset(S, filter_tables=True, include_orphan_tables)\<close> returns a container,
  every table of it is a table of the original that was asked for by name (its name is
  in \<open>S\<close>), or, with \<open>include_orphan_tables\<close>, a table of the original without annotation
  metadata, or a filtered table: it carries annotation metadata, the values of its
  region-key column are all in \<open>S\<close>, and it has at least one row. With
  \<open>include_orphan_tables\<close>, every table of the original without annotation metadata is in
  the result, unchanged, whatever \<open>S\<close> is.
\<close>

theorem subset_table_consistency:
  assumes "subset tmv objs sd S True orph = (ws, Inr sd')"
  shows "(\<forall>(n, t')\<in>set (data (tables sd')).
            (n \<in> set S \<and> (n, t') \<in> set (data (tables sd))) \<or>
            (orph \<and> uns_attrs t' = None \<and> (n, t') \<in> set (data (tables sd))) \<or>
            (\<exists>a. uns_attrs t' = Some a \<and> set (column_values t' (region_key a)) \<subseteq> set S \<and>
                 obs_rows t' \<noteq> [])) \<and>
         (orph \<and> distinct (map fst (data (tables sd))) \<longrightarrow>
            (\<forall>(n, t)\<in>set (data (tables sd)).
               uns_attrs t = None \<longrightarrow> (n, t) \<in> set (data (tables sd'))))"
proof -
  obtain ed keep where sl: "subset_loop S (gen_elements sd) ([], {}) = (ed, keep)"
    by (cases "subset_loop S (gen_elements sd) ([], {})")
  from subset_loop_props[OF sl] have ned: "names_in ed \<subseteq> set S" and kp: "keep \<subseteq> set S"
    by (simp_all add: names_in_Nil)
  obtain tbls where ft: "filter_tables_loop keep (Some ByElements) orph None (Some ed)
                            (data (tables sd)) [] = Inr tbls"
    and i: "init tmv objs (map_of ed ''images'') (map_of ed ''labels'') (map_of ed ''points'')
               (map_of ed ''shapes'') (Some (TablesDict tbls)) = (ws, Inr sd')"
    using assms
    by (cases "filter_tables_loop keep (Some ByElements) orph None (Some ed) (data (tables sd)) []")
       (simp_all add: subset_def sl filter_tables_def)
  have dt: "data (tables sd') = tbls" by (rule init_tables_of_dict[OF i])
  have p1: "\<forall>(n, t')\<in>set tbls.
            (n \<in> set S \<and> (n, t') \<in> set (data (tables sd))) \<or>
            (orph \<and> uns_attrs t' = None \<and> (n, t') \<in> set (data (tables sd))) \<or>
            (\<exists>a. uns_attrs t' = Some a \<and> set (column_values t' (region_key a)) \<subseteq> set S \<and>
                 obs_rows t' \<noteq> [])"
  proof
    fix nt assume "nt \<in> set tbls"
    with filter_loop_props[OF ft] have k: "kept_as keep orph ed (data (tables sd)) nt" by simp
    obtain n t' where nt: "nt = (n, t')" by (cases nt)
    from k have "(orph \<and> uns_attrs t' = None \<and> (n, t') \<in> set (data (tables sd))) \<or>
        (n \<in> keep \<and> (n, t') \<in> set (data (tables sd))) \<or>
        (\<exists>t. (n, t) \<in> set (data (tables sd)) \<and> t' = filter_table_by_elements t ed \<and>
             obs_rows t' \<noteq> [])"
      unfolding nt kept_as_def by simp
    then consider (o) "orph \<and> uns_attrs t' = None \<and> (n, t') \<in> set (data (tables sd))"
      | (f) "n \<in> keep \<and> (n, t') \<in> set (data (tables sd))"
      | (fl) t where "t' = filter_table_by_elements t ed" "obs_rows t' \<noteq> []"
      by blast
    then have "(n \<in> set S \<and> (n, t') \<in> set (data (tables sd))) \<or>
            (orph \<and> uns_attrs t' = None \<and> (n, t') \<in> set (data (tables sd))) \<or>
            (\<exists>a. uns_attrs t' = Some a \<and> set (column_values t' (region_key a)) \<subseteq> set S \<and>
                 obs_rows t' \<noteq> [])"
    proof cases
      case o
      then show ?thesis by simp
    next
      case f
      with kp show ?thesis by blast
    next
      case fl
      from filter_table_by_elements_props[of t ed] fl
      obtain a where "uns_attrs t' = Some a"
        "set (column_values t' (region_key a)) \<subseteq> names_in ed" by blast
      with ned fl(2) have "\<exists>a. uns_attrs t' = Some a \<and>
          set (column_values t' (region_key a)) \<subseteq> set S \<and> obs_rows t' \<noteq> []"
        by blast
      then show ?thesis by simp
    qed
    then show "case nt of (n, t') \<Rightarrow>
            (n \<in> set S \<and> (n, t') \<in> set (data (tables sd))) \<or>
            (orph \<and> uns_attrs t' = None \<and> (n, t') \<in> set (data (tables sd))) \<or>
            (\<exists>a. uns_attrs t' = Some a \<and> set (column_values t' (region_key a)) \<subseteq> set S \<and>
                 obs_rows t' \<noteq> [])"
      unfolding nt by simp
  qed
  have p2: "orph \<and> distinct (map fst (data (tables sd))) \<longrightarrow>
            (\<forall>(n, t)\<in>set (data (tables sd)). uns_attrs t = None \<longrightarrow> (n, t) \<in> set tbls)"
  proof
    assume h: "orph \<and> distinct (map fst (data (tables sd)))"
    then have ft': "filter_tables_loop keep (Some ByElements) True None (Some ed)
                            (data (tables sd)) [] = Inr tbls" using ft by simp
    from filter_loop_orphans[OF ft'] h
    have m: "\<forall>(n, t)\<in>set (data (tables sd)). uns_attrs t = None \<longrightarrow> map_of tbls n = Some t"
      by simp
    show "\<forall>(n, t)\<in>set (data (tables sd)). uns_attrs t = None \<longrightarrow> (n, t) \<in> set tbls"
    proof
      fix x assume x: "x \<in> set (data (tables sd))"
      obtain n t where xx: "x = (n, t)" by (cases x)
      from bspec[OF m x] have "uns_attrs t = None \<longrightarrow> map_of tbls n = Some t"
        unfolding xx by simp
      then have "uns_attrs t = None \<longrightarrow> (n, t) \<in> set tbls"
        using map_of_SomeD[of tbls n t] by blast
      then show "case x of (n, t) \<Rightarrow> uns_attrs t = None \<longrightarrow> (n, t) \<in> set tbls"
        unfolding xx by simp
    qed
  qed
  from p1 p2 show ?thesis unfolding dt by (rule conjI)
qed

lemma pair_Inr_projr: "\<not> isl (snd p) \<Longrightarrow> p = (fst p, Inr (projr (snd p)))"
  by (cases p; cases "snd p") auto

theorem subset_table_consistency_witness:
  "\<not> isl (snd (subset (\<lambda>_. True)
       (\<lambda>_. \<lparr>payload = GeoDataFrame (DInt 64), transformations = [(''global'', Identity)],
              backing_files = []\<rparr>)
       (insert_all
          [IntoShapes ''cells'' 0, IntoShapes ''nuclei'' 1,
           IntoTables ''t''
             \<lparr>obs_columns = [(''region'', DObject), (''instance_id'', DInt 64)],
              obs_rows = [\<lambda>c. if c = ''region'' then ''cells'' else ''1'',
                          \<lambda>c. if c = ''region'' then ''nuclei'' else ''2''],
              uns_attrs = Some \<lparr>region = RegionList [''cells'', ''nuclei''],
                                 region_key = ''region'', instance_key = ''instance_id''\<rparr>\<rparr>,
           IntoTables ''orphan'' \<lparr>obs_columns = [], obs_rows = [], uns_attrs = None\<rparr>]
          empty_sdata)
       [''cells''] True True)) \<and>
   map (\<lambda>(n, t). (n, column_values t ''region''))
     (data (tables (projr (snd (subset (\<lambda>_. True)
       (\<lambda>_. \<lparr>payload = GeoDataFrame (DInt 64), transformations = [(''global'', Identity)],
              backing_files = []\<rparr>)
       (insert_all
          [IntoShapes ''cells'' 0, IntoShapes ''nuclei'' 1,
           IntoTables ''t''
             \<lparr>obs_columns = [(''region'', DObject), (''instance_id'', DInt 64)],
              obs_rows = [\<lambda>c. if c = ''region'' then ''cells'' else ''1'',
                          \<lambda>c. if c = ''region'' then ''nuclei'' else ''2''],
              uns_attrs = Some \<lparr>region = RegionList [''cells'', ''nuclei''],
                                 region_key = ''region'', instance_key = ''instance_id''\<rparr>\<rparr>,
           IntoTables ''orphan'' \<lparr>obs_columns = [], obs_rows = [], uns_attrs = None\<rparr>]
          empty_sdata)
       [''cells''] True True))))) =
   [(''t'', [''cells'']), (''orphan'', [])]"
  (is "\<not> isl (snd ?X) \<and> ?R")
proof -
  have ok: "\<not> isl (snd ?X)" by code_simp
  have r: ?R by code_simp
  have h: "?X = (fst ?X, Inr (projr (snd ?X)))" by (rule pair_Inr_projr[OF ok])
  from subset_table_consistency[OF h] ok r show ?thesis by (intro conjI) 
qed

text \<open>
  A table asked for by name and a table without annotation metadata are returned as they
  are, here both with zero rows.
\<close>

theorem subset_table_consistency_counterexample:
  "\<not> isl (snd (subset (\<lambda>_. True)
       (\<lambda>_. \<lparr>payload = GeoDataFrame (DInt 64), transformations = [(''global'', Identity)],
              backing_files = []\<rparr>)
       (insert_all
          [IntoShapes ''cells'' 0,
           IntoTables ''forced''
             \<lparr>obs_columns = [(''region'', DObject), (''instance_id'', DInt 64)],
              obs_rows = [],
              uns_attrs = Some \<lparr>region = RegionStr ''cells'',
                                 region_key = ''region'', instance_key = ''instance_id''\<rparr>\<rparr>,
           IntoTables ''orphan'' \<lparr>obs_columns = [], obs_rows = [], uns_attrs = None\<rparr>]
          empty_sdata)
       [''cells'', ''forced''] True True)) \<and>
   map fst (data (tables (projr (snd (subset (\<lambda>_. True)
       (\<lambda>_. \<lparr>payload = GeoDataFrame (DInt 64), transformations = [(''global'', Identity)],
              backing_files = []\<rparr>)
       (insert_all
          [IntoShapes ''cells'' 0,
           IntoTables ''forced''
             \<lparr>obs_columns = [(''region'', DObject), (''instance_id'', DInt 64)],
              obs_rows = [],
              uns_attrs = Some \<lparr>region = RegionStr ''cells'',
                                 region_key = ''region'', instance_key = ''instance_id''\<rparr>\<rparr>,
           IntoTables ''orphan'' \<lparr>obs_columns = [], obs_rows = [], uns_attrs = None\<rparr>]
          empty_sdata)
       [''cells'', ''forced''] True True))))) = [''forced'', ''orphan''] \<and>
   map (length \<circ> obs_rows \<circ> snd) (data (tables (projr (snd (subset (\<lambda>_. True)
       (\<lambda>_. \<lparr>payload = GeoDataFrame (DInt 64), transformations = [(''global'', Identity)],
              backing_files = []\<rparr>)
       (insert_all
          [IntoShapes ''cells'' 0,
           IntoTables ''forced''
             \<lparr>obs_columns = [(''region'', DObject), (''instance_id'', DInt 64)],
              obs_rows = [],
              uns_attrs = Some \<lparr>region = RegionStr ''cells'',
                                 region_key = ''region'', instance_key = ''instance_id''\<rparr>\<rparr>,
           IntoTables ''orphan'' \<lparr>obs_columns = [], obs_rows = [], uns_attrs = None\<rparr>]
          empty_sdata)
       [''cells'', ''forced''] True True))))) = [0, 0]"
  by code_simp

end
